theory Spec2Isabelle
  imports Complex_Main
begin

section \<open>JavaScript numbers\<close>

text \<open>
  The form computes on JavaScript numbers, the binary64 numbers of IEEE 754. A number is
  modelled as \<open>NaN\<close>, one of the two infinities, or a finite value held as a rational.
  An arithmetic operation rounds its exact result to the nearest binary64 number
  (\<open>fl\<close> below). The sign of zero is not modelled: \<open>-0\<close> is \<open>Fin 0\<close>, and a finite
  number divided by zero takes the sign of the dividend.
\<close>

datatype jsnum = NaN | PosInf | NegInf | Fin rat

text \<open>\<open>-a\<close>\<close>

fun js_neg :: "jsnum \<Rightarrow> jsnum" where
  "js_neg (Fin a) = Fin (- a)"
| "js_neg PosInf = NegInf"
| "js_neg NegInf = PosInf"
| "js_neg NaN = NaN"

subsection \<open>Rounding to binary64\<close>

text \<open>The integer nearest to \<open>x\<close>, a tie going to the even one.\<close>

definition rne :: "rat \<Rightarrow> int" where
  "rne x =
     (let f = \<lfloor>x\<rfloor>; d = x - of_int f
      in if d < 1 / 2 then f else if 1 / 2 < d then f + 1 else if even f then f else f + 1)"

text \<open>
  The exponent \<open>e\<close> of the binary64 format at a positive \<open>x\<close>: the least \<open>e\<close> from
  -1074 (the subnormal numbers) up to 971 with \<open>x < 2 ^ 53 * 2 powi e\<close>, so that
  \<open>x / 2 powi e\<close> has at most 53 bits before the point; 971 when there is none. The
  search starts at -1074 and has 2045 steps to go.
\<close>

fun expoFrom :: "nat \<Rightarrow> int \<Rightarrow> rat \<Rightarrow> int" where
  "expoFrom 0 e x = e"
| "expoFrom (Suc n) e x = (if x < 2 ^ 53 * 2 powi e then e else expoFrom n (e + 1) x)"

definition expo :: "rat \<Rightarrow> int" where
  "expo x = expoFrom 2045 (- 1074) x"

text \<open>
  A positive \<open>x\<close> rounded to binary64: the significand \<open>x / 2 powi e\<close> is rounded to an
  integer, ties to even; a result of \<open>2 ^ 1024\<close> or more is an overflow.
\<close>

definition flPos :: "rat \<Rightarrow> jsnum" where
  "flPos x =
     (let e = expo x; y = of_int (rne (x / 2 powi e)) * 2 powi e
      in if 2 ^ 1024 \<le> y then PosInf else Fin y)"

definition fl :: "rat \<Rightarrow> jsnum" where
  "fl x = (if x = 0 then Fin 0 else if 0 < x then flPos x else js_neg (flPos (- x)))"

subsection \<open>Operations\<close>

text \<open>\<open>a * b\<close>\<close>

fun js_mul :: "jsnum \<Rightarrow> jsnum \<Rightarrow> jsnum" where
  "js_mul NaN _ = NaN"
| "js_mul _ NaN = NaN"
| "js_mul (Fin a) (Fin b) = fl (a * b)"
| "js_mul (Fin a) PosInf = (if a = 0 then NaN else if 0 < a then PosInf else NegInf)"
| "js_mul (Fin a) NegInf = (if a = 0 then NaN else if 0 < a then NegInf else PosInf)"
| "js_mul PosInf (Fin b) = (if b = 0 then NaN else if 0 < b then PosInf else NegInf)"
| "js_mul NegInf (Fin b) = (if b = 0 then NaN else if 0 < b then NegInf else PosInf)"
| "js_mul PosInf PosInf = PosInf"
| "js_mul PosInf NegInf = NegInf"
| "js_mul NegInf PosInf = NegInf"
| "js_mul NegInf NegInf = PosInf"

text \<open>\<open>a / b\<close>\<close>

fun js_div :: "jsnum \<Rightarrow> jsnum \<Rightarrow> jsnum" where
  "js_div NaN _ = NaN"
| "js_div _ NaN = NaN"
| "js_div (Fin a) (Fin b) =
     (if b = 0 then (if a = 0 then NaN else if 0 < a then PosInf else NegInf)
      else fl (a / b))"
| "js_div (Fin a) PosInf = Fin 0"
| "js_div (Fin a) NegInf = Fin 0"
| "js_div PosInf (Fin b) = (if 0 \<le> b then PosInf else NegInf)"
| "js_div NegInf (Fin b) = (if 0 \<le> b then NegInf else PosInf)"
| "js_div PosInf PosInf = NaN"
| "js_div PosInf NegInf = NaN"
| "js_div NegInf PosInf = NaN"
| "js_div NegInf NegInf = NaN"

text \<open>\<open>a - b\<close>\<close>

fun js_sub :: "jsnum \<Rightarrow> jsnum \<Rightarrow> jsnum" where
  "js_sub NaN _ = NaN"
| "js_sub _ NaN = NaN"
| "js_sub (Fin a) (Fin b) = fl (a - b)"
| "js_sub (Fin a) PosInf = NegInf"
| "js_sub (Fin a) NegInf = PosInf"
| "js_sub PosInf (Fin b) = PosInf"
| "js_sub NegInf (Fin b) = NegInf"
| "js_sub PosInf PosInf = NaN"
| "js_sub PosInf NegInf = PosInf"
| "js_sub NegInf PosInf = NegInf"
| "js_sub NegInf NegInf = NaN"

text \<open>\<open>a <= b\<close> and \<open>a < b\<close>: false as soon as one side is \<open>NaN\<close>.\<close>

fun js_le :: "jsnum \<Rightarrow> jsnum \<Rightarrow> bool" where
  "js_le NaN _ = False"
| "js_le _ NaN = False"
| "js_le NegInf _ = True"
| "js_le _ PosInf = True"
| "js_le PosInf _ = False"
| "js_le _ NegInf = False"
| "js_le (Fin a) (Fin b) = (a \<le> b)"

fun js_lt :: "jsnum \<Rightarrow> jsnum \<Rightarrow> bool" where
  "js_lt NaN _ = False"
| "js_lt _ NaN = False"
| "js_lt PosInf _ = False"
| "js_lt _ NegInf = False"
| "js_lt NegInf _ = True"
| "js_lt _ PosInf = True"
| "js_lt (Fin a) (Fin b) = (a < b)"

text \<open>
  \<open>Math.round(x)\<close>: the integer nearest to \<open>x\<close>, a tie going to the larger one
  (\<open>Math.round(2.5)\<close> is 3 and \<open>Math.round(-2.5)\<close> is -2); \<open>NaN\<close> and the infinities
  are returned as they are. The result is exact: the integer is a binary64 number
  whenever \<open>x\<close> is one.
\<close>

fun Math_round :: "jsnum \<Rightarrow> jsnum" where
  "Math_round (Fin a) = Fin (of_int \<lfloor>a + 1 / 2\<rfloor>)"
| "Math_round x = x"

text \<open>\<open>a || b\<close> on numbers: \<open>NaN\<close> and zero are the falsy numbers.\<close>

definition js_or :: "jsnum \<Rightarrow> jsnum \<Rightarrow> jsnum" where
  "js_or a b = (if a = NaN \<or> a = Fin 0 then b else a)"

section \<open>\<open>parseFloat\<close>\<close>

text \<open>
  \<open>parseFloat(s)\<close> skips leading white space and reads the longest prefix of the rest
  that is a decimal literal: an optional sign, then \<open>Infinity\<close> or digits with an
  optional fraction and an optional exponent. With no such prefix the result is \<open>NaN\<close>;
  otherwise it is the decimal value read, rounded to binary64. A string is the list of
  its code units, each below 256: the white space is the code units 9 to 13, 32 and 160.
\<close>

definition isWhiteSpace :: "char \<Rightarrow> bool" where
  "isWhiteSpace c = (of_char c \<in> {9, 10, 11, 12, 13, 32, 160 :: nat})"

definition isDigit :: "char \<Rightarrow> bool" where
  "isDigit c = (48 \<le> (of_char c :: nat) \<and> (of_char c :: nat) \<le> 57)"

definition digitsVal :: "string \<Rightarrow> int" where
  "digitsVal ds = foldl (\<lambda>n c. 10 * n + (of_char c - 48)) 0 ds"

text \<open>The exponent part at the head of a string, 0 when there is none.\<close>

definition exponentPart :: "string \<Rightarrow> int" where
  "exponentPart r =
     (case r of
        [] \<Rightarrow> 0
      | c # r1 \<Rightarrow>
          if c = CHR ''e'' \<or> c = CHR ''E'' then
            (case r1 of
               [] \<Rightarrow> 0
             | d # r2 \<Rightarrow>
                 if d = CHR ''-'' then
                   (if takeWhile isDigit r2 = [] then 0
                    else - digitsVal (takeWhile isDigit r2))
                 else if d = CHR ''+'' then
                   (if takeWhile isDigit r2 = [] then 0
                    else digitsVal (takeWhile isDigit r2))
                 else digitsVal (takeWhile isDigit r1))
          else 0)"

definition scale10 :: "rat \<Rightarrow> int \<Rightarrow> rat" where
  "scale10 m e = (if 0 \<le> e then m * 10 ^ nat e else m / 10 ^ nat (- e))"

text \<open>
  The literal at the head of a string, after the white space: none, an infinity with
  its sign (\<open>True\<close> for \<open>-\<close>), or a decimal literal with its exact value.
\<close>

datatype literal = NotNumeric | Infinite bool | Decimal rat

definition strDecimalLiteral :: "string \<Rightarrow> literal" where
  "strDecimalLiteral s =
     (let t = dropWhile isWhiteSpace s;
          neg = (t \<noteq> [] \<and> hd t = CHR ''-'');
          u = (if t \<noteq> [] \<and> (hd t = CHR ''-'' \<or> hd t = CHR ''+'') then tl t else t)
      in if take 8 u = ''Infinity'' then Infinite neg
         else
           let ip = takeWhile isDigit u;
               r1 = dropWhile isDigit u;
               dot = (r1 \<noteq> [] \<and> hd r1 = CHR ''.'');
               fp = (if dot then takeWhile isDigit (tl r1) else []);
               r2 = (if dot then dropWhile isDigit (tl r1) else r1)
           in if ip = [] \<and> fp = [] then NotNumeric
              else
                let mant = of_int (digitsVal ip) + of_int (digitsVal fp) / 10 ^ length fp;
                    v = scale10 mant (exponentPart r2)
                in Decimal (if neg then - v else v))"

definition parseFloat :: "string \<Rightarrow> jsnum" where
  "parseFloat s =
     (case strDecimalLiteral s of
        NotNumeric \<Rightarrow> NaN
      | Infinite neg \<Rightarrow> (if neg then NegInf else PosInf)
      | Decimal v \<Rightarrow> fl v)"

section \<open>Sale types\<close>

datatype saleType = DEED | TRUST

section \<open>Rounding to two decimal places\<close>

text \<open>
  What "\<open>x\<close> rounded to 2 decimal places is \<open>c\<close>" means in exact arithmetic: \<open>c\<close> is a
  whole number of hundredths, at most half a hundredth away from \<open>x\<close>, and a tie goes up.
\<close>

definition roundedTo2 :: "rat \<Rightarrow> rat \<Rightarrow> bool" where
  "roundedTo2 x c =
     (of_int \<lfloor>c * 100\<rfloor> = c * 100 \<and> x - 1 / 200 < c \<and> c \<le> x + 1 / 200)"

section \<open>The sale economics calculator\<close>

text \<open>
  The module \<open>../types/sales\<close>, which defines \<open>calculateTotalCommission\<close>,
  \<open>calculateFDIPoints\<close>, \<open>calculateFDICost\<close> and \<open>calculateDailyVPG\<close>, is not among the
  sources. The definitions of this section follow the specification of these functions
  instead. The tier tables and the charge per excess point are configuration data. The
  specification states its rules on quantities, so they are computed here in exact
  arithmetic: \<open>exact_mul\<close>, \<open>exact_div\<close> and \<open>exact_sub\<close> are product, quotient and
  difference without rounding.
\<close>

fun exact_mul :: "jsnum \<Rightarrow> jsnum \<Rightarrow> jsnum" where
  "exact_mul NaN _ = NaN"
| "exact_mul _ NaN = NaN"
| "exact_mul (Fin a) (Fin b) = Fin (a * b)"
| "exact_mul (Fin a) PosInf = (if a = 0 then NaN else if 0 < a then PosInf else NegInf)"
| "exact_mul (Fin a) NegInf = (if a = 0 then NaN else if 0 < a then NegInf else PosInf)"
| "exact_mul PosInf (Fin b) = (if b = 0 then NaN else if 0 < b then PosInf else NegInf)"
| "exact_mul NegInf (Fin b) = (if b = 0 then NaN else if 0 < b then NegInf else PosInf)"
| "exact_mul PosInf PosInf = PosInf"
| "exact_mul PosInf NegInf = NegInf"
| "exact_mul NegInf PosInf = NegInf"
| "exact_mul NegInf NegInf = PosInf"

fun exact_div :: "jsnum \<Rightarrow> jsnum \<Rightarrow> jsnum" where
  "exact_div NaN _ = NaN"
| "exact_div _ NaN = NaN"
| "exact_div (Fin a) (Fin b) =
     (if b = 0 then (if a = 0 then NaN else if 0 < a then PosInf else NegInf)
      else Fin (a / b))"
| "exact_div (Fin a) PosInf = Fin 0"
| "exact_div (Fin a) NegInf = Fin 0"
| "exact_div PosInf (Fin b) = (if 0 \<le> b then PosInf else NegInf)"
| "exact_div NegInf (Fin b) = (if 0 \<le> b then NegInf else PosInf)"
| "exact_div PosInf PosInf = NaN"
| "exact_div PosInf NegInf = NaN"
| "exact_div NegInf PosInf = NaN"
| "exact_div NegInf NegInf = NaN"

fun exact_sub :: "jsnum \<Rightarrow> jsnum \<Rightarrow> jsnum" where
  "exact_sub NaN _ = NaN"
| "exact_sub _ NaN = NaN"
| "exact_sub (Fin a) (Fin b) = Fin (a - b)"
| "exact_sub (Fin a) PosInf = NegInf"
| "exact_sub (Fin a) NegInf = PosInf"
| "exact_sub PosInf (Fin b) = PosInf"
| "exact_sub NegInf (Fin b) = NegInf"
| "exact_sub PosInf PosInf = NaN"
| "exact_sub PosInf NegInf = PosInf"
| "exact_sub NegInf PosInf = NegInf"
| "exact_sub NegInf NegInf = NaN"

record config =
  deedTiers :: "(rat \<times> rat) list"
  trustTiers :: "(rat \<times> rat) list"
  fdiExcessRate :: rat

text \<open>
  Modelled from the spec: the shared normalization of a numeric input whose domain is
  non-negative (section 4.4; the functions of \<open>../types/sales\<close> that would apply it are
  missing). \<open>NaN\<close> becomes 0 and a negative number is clamped to 0.
\<close>

definition normalizeNonNeg :: "jsnum \<Rightarrow> jsnum" where
  "normalizeNonNeg x = (if x = NaN then Fin 0 else if js_lt x (Fin 0) then Fin 0 else x)"

text \<open>
  Modelled from the spec: the rate of the tier selected by a volume (section 4.1; the
  tier lookup of \<open>calculateTotalCommission\<close> is missing). A table is a sequence of
  (threshold, rate) pairs sorted ascending by threshold, so the highest threshold not
  exceeding the volume is that of the last tier whose threshold does not exceed it. Below
  the lowest threshold the first tier's rate applies. The spec does not say what an empty
  table gives; it gives 0 here.
\<close>

definition tierRate :: "(rat \<times> rat) list \<Rightarrow> jsnum \<Rightarrow> rat" where
  "tierRate tiers volume =
     (let reached = filter (\<lambda>tier. js_le (Fin (fst tier)) volume) tiers
      in if reached = [] then (case tiers of [] \<Rightarrow> 0 | tier # _ \<Rightarrow> snd tier)
         else snd (last reached))"

text \<open>
  Modelled from the spec: \<open>totalCommissionRate\<close> (section 4.1; \<open>calculateTotalCommission\<close>
  of \<open>../types/sales\<close> is missing). The prior volume, normalized, selects the tier in the
  table of the sale type; the sale amount takes no part; the rate is clamped to [0, 100]
  and rounded to 2 decimal places.
\<close>

definition totalCommissionRate :: "config \<Rightarrow> jsnum \<Rightarrow> jsnum \<Rightarrow> saleType \<Rightarrow> jsnum" where
  "totalCommissionRate cfg saleAmount priorVolume t =
     (let tiers = (case t of DEED \<Rightarrow> deedTiers cfg | TRUST \<Rightarrow> trustTiers cfg);
          rate = tierRate tiers (normalizeNonNeg priorVolume);
          clamped = max 0 (min 100 rate)
      in Fin (of_int \<lfloor>clamped * 100 + 1 / 2\<rfloor> / 100))"

text \<open>
  Modelled from the spec: \<open>fdiDiscountCost\<close> (section 4.2, contract B; \<open>calculateFDICost\<close>
  of \<open>../types/sales\<close> is missing). No points redeemed, or no more than the points
  available, cost nothing; beyond that the cost is the excess times the configured rate,
  rounded to 2 decimal places.
\<close>

definition fdiDiscountCost :: "config \<Rightarrow> jsnum \<Rightarrow> jsnum \<Rightarrow> jsnum" where
  "fdiDiscountCost cfg pointsRedeemed pointsAvailable =
     (let redeemed = normalizeNonNeg pointsRedeemed;
          available = normalizeNonNeg pointsAvailable
      in if redeemed = Fin 0 then Fin 0
         else if js_le redeemed available then Fin 0
         else exact_div
                (Math_round
                  (exact_mul (exact_mul (Fin (fdiExcessRate cfg)) (exact_sub redeemed available))
                    (Fin 100)))
                (Fin 100))"

text \<open>
  Modelled from the spec: \<open>dailyProductivityMetric\<close> (section 4.3; \<open>calculateDailyVPG\<close> of
  \<open>../types/sales\<close> is missing). Both inputs are normalized; the metric is their quotient
  when the tour count is positive and 0 when it is zero.
\<close>

definition dailyProductivityMetric :: "jsnum \<Rightarrow> jsnum \<Rightarrow> jsnum" where
  "dailyProductivityMetric saleAmount tourCount =
     (let amount = normalizeNonNeg saleAmount;
          tours = normalizeNonNeg tourCount
      in if js_lt (Fin 0) tours then exact_div amount tours else Fin 0)"

section \<open>The form\<close>

text \<open>\<open>interface FormData\<close>, the state of the form.\<close>

record FormData =
  date :: string
  clientLastName :: string
  leadNumber :: string
  numberOfTours :: jsnum
  managerName :: string
  saleAmount :: string
  commissionPercentage :: string
  commissionAmount :: string
  fdi :: string
  fdiPoints :: jsnum
  fdiGivenPoints :: jsnum
  fdiCost :: jsnum
  notes' :: string
  saleType :: saleType
  isCancelled :: bool

text \<open>
  The object handed to \<open>onSubmit\<close>: the fields of the form state, the amount and the
  commission fields as numbers, \<open>dailyVPG\<close>, and the \<open>id\<close> when a sale is being edited.
\<close>

record Sale =
  id' :: "string option"
  date :: string
  clientLastName :: string
  leadNumber :: string
  numberOfTours :: jsnum
  managerName :: string
  saleAmount :: jsnum
  commissionPercentage :: jsnum
  commissionAmount :: jsnum
  fdi :: string
  fdiPoints :: jsnum
  fdiGivenPoints :: jsnum
  fdiCost :: jsnum
  notes' :: string
  saleType :: saleType
  isCancelled :: bool
  dailyVPG :: jsnum

text \<open>
  The four functions the form imports from \<open>../types/sales\<close>. That module is not among
  the sources, so the handlers take the functions as a parameter.
\<close>

record salesLib =
  calculateTotalCommission :: "jsnum \<Rightarrow> jsnum \<Rightarrow> saleType \<Rightarrow> jsnum"
  calculateFDIPoints :: "jsnum \<Rightarrow> jsnum"
  calculateFDICost :: "jsnum \<Rightarrow> jsnum \<Rightarrow> jsnum"
  calculateDailyVPG :: "jsnum \<Rightarrow> jsnum \<Rightarrow> jsnum"

text \<open>\<open>initialFormData\<close>; the date of the day is a parameter.\<close>

definition initialFormData :: "string \<Rightarrow> FormData" where
  "initialFormData today =
     \<lparr>FormData.date = today, clientLastName = '''', leadNumber = '''',
      numberOfTours = Fin 0, managerName = '''', saleAmount = '''',
      commissionPercentage = '''', commissionAmount = '''', fdi = '''',
      fdiPoints = Fin 0, fdiGivenPoints = Fin 0, fdiCost = Fin 0, notes' = '''',
      saleType = DEED, isCancelled = False\<rparr>"

text \<open>
  \<open>Math.round(parseFloat(amount) * 100) / 100 || 0\<close>, the first line of \<open>handleSubmit\<close>,
  of \<open>handleSaleAmountChange\<close> and of \<open>handleSaleTypeChange\<close>.
\<close>

definition saleAmountOf :: "string \<Rightarrow> jsnum" where
  "saleAmountOf amount =
     js_or (js_div (Math_round (js_mul (parseFloat amount) (Fin 100))) (Fin 100)) (Fin 0)"

text \<open>
  \<open>Math.round(saleAmount * (totalCommissionPercentage / 100) * 100) / 100\<close>, their
  third line.
\<close>

definition commissionAmountOf :: "jsnum \<Rightarrow> jsnum \<Rightarrow> jsnum" where
  "commissionAmountOf amount pct =
     js_div (Math_round (js_mul (js_mul amount (js_div pct (Fin 100))) (Fin 100))) (Fin 100)"

text \<open>\<open>parseFloat(fdi) || 0\<close>\<close>

definition fdiGivenPointsOf :: "string \<Rightarrow> jsnum" where
  "fdiGivenPointsOf txt = js_or (parseFloat txt) (Fin 0)"

text \<open>
  \<open>handleSubmit\<close>: the object passed to \<open>onSubmit\<close> and the form state set afterwards.
  \<open>editingSale\<close> and \<open>currentTotalVolume\<close> are the component's props.
\<close>

definition handleSubmit ::
  "salesLib \<Rightarrow> string \<Rightarrow> Sale option \<Rightarrow> jsnum \<Rightarrow> FormData \<Rightarrow> Sale \<times> FormData" where
  "handleSubmit lib today editingSale currentTotalVolume formData =
     (let saleAmount = saleAmountOf (FormData.saleAmount formData);
          totalCommissionPercentage =
            calculateTotalCommission lib saleAmount currentTotalVolume (FormData.saleType formData);
          commissionAmount = commissionAmountOf saleAmount totalCommissionPercentage;
          fdiPoints = calculateFDIPoints lib saleAmount;
          fdiGivenPoints = fdiGivenPointsOf (FormData.fdi formData);
          fdiCost = calculateFDICost lib fdiGivenPoints fdiPoints;
          dailyVPG = calculateDailyVPG lib saleAmount (FormData.numberOfTours formData)
      in (\<lparr>id' = (case editingSale of
                    None \<Rightarrow> None
                  | Some e \<Rightarrow> (case id' e of
                                None \<Rightarrow> None
                              | Some i \<Rightarrow> if i = [] then None else Some i)),
           date = FormData.date formData,
           clientLastName = FormData.clientLastName formData,
           leadNumber = FormData.leadNumber formData,
           numberOfTours = FormData.numberOfTours formData,
           managerName = FormData.managerName formData,
           saleAmount = saleAmount,
           commissionPercentage =
             js_div (Math_round (js_mul totalCommissionPercentage (Fin 100))) (Fin 100),
           commissionAmount = commissionAmount,
           fdi = FormData.fdi formData,
           fdiPoints = fdiPoints,
           fdiGivenPoints = fdiGivenPoints,
           fdiCost = fdiCost,
           notes' = FormData.notes' formData,
           saleType = FormData.saleType formData,
           isCancelled = FormData.isCancelled formData,
           dailyVPG = dailyVPG\<rparr>,
          initialFormData today))"

text \<open>
  \<open>handleSaleAmountChange\<close>; \<open>toFixed2\<close> stands for \<open>Number.prototype.toFixed\<close> at 2
  digits, which only makes the two display strings.
\<close>

definition handleSaleAmountChange ::
  "salesLib \<Rightarrow> (jsnum \<Rightarrow> string) \<Rightarrow> jsnum \<Rightarrow> FormData \<Rightarrow> string \<Rightarrow> FormData" where
  "handleSaleAmountChange lib toFixed2 currentTotalVolume formData amount =
     (let saleAmount = saleAmountOf amount;
          totalCommissionPercentage =
            calculateTotalCommission lib saleAmount currentTotalVolume (FormData.saleType formData);
          commissionAmount = commissionAmountOf saleAmount totalCommissionPercentage;
          fdiPoints = calculateFDIPoints lib saleAmount;
          fdiGivenPoints = fdiGivenPointsOf (FormData.fdi formData);
          fdiCost = calculateFDICost lib fdiGivenPoints fdiPoints
      in formData
           \<lparr>FormData.saleAmount := amount,
            FormData.commissionPercentage := toFixed2 totalCommissionPercentage,
            FormData.commissionAmount := toFixed2 commissionAmount,
            FormData.fdiPoints := fdiPoints,
            FormData.fdiCost := fdiCost\<rparr>)"

text \<open>\<open>handleFDIChange\<close>; \<open>fdi'\<close> is its argument \<open>fdi\<close>, the text typed.\<close>

definition handleFDIChange :: "salesLib \<Rightarrow> FormData \<Rightarrow> string \<Rightarrow> FormData" where
  "handleFDIChange lib formData fdi' =
     (let fdiGivenPoints = fdiGivenPointsOf fdi';
          fdiCost = calculateFDICost lib fdiGivenPoints (FormData.fdiPoints formData)
      in formData
           \<lparr>FormData.fdi := fdi',
            FormData.fdiGivenPoints := fdiGivenPoints,
            FormData.fdiCost := fdiCost\<rparr>)"

text \<open>\<open>handleSaleTypeChange\<close>; \<open>saleType'\<close> is its argument \<open>saleType\<close>.\<close>

definition handleSaleTypeChange ::
  "salesLib \<Rightarrow> (jsnum \<Rightarrow> string) \<Rightarrow> jsnum \<Rightarrow> FormData \<Rightarrow> saleType \<Rightarrow> FormData" where
  "handleSaleTypeChange lib toFixed2 currentTotalVolume formData saleType' =
     (let saleAmount = saleAmountOf (FormData.saleAmount formData);
          totalCommissionPercentage =
            calculateTotalCommission lib saleAmount currentTotalVolume saleType';
          commissionAmount = commissionAmountOf saleAmount totalCommissionPercentage
      in formData
           \<lparr>FormData.saleType := saleType',
            FormData.commissionPercentage := toFixed2 totalCommissionPercentage,
            FormData.commissionAmount := toFixed2 commissionAmount\<rparr>)"

section \<open>Example data\<close>

text \<open>
  A library, a form state and a configuration at which the theorems below are
  instantiated. Their values are examples: the repository's own tables are in the missing
  module.
\<close>

definition exampleLib :: salesLib where
  "exampleLib =
     \<lparr>calculateTotalCommission = (\<lambda>amount volume t. Fin (13 / 2)),
      calculateFDIPoints = (\<lambda>amount. amount),
      calculateFDICost = (\<lambda>given points.
        if given = Fin 0 \<or> js_le given points then Fin 0 else js_sub given points),
      calculateDailyVPG = (\<lambda>amount tours.
        if js_lt (Fin 0) tours then js_div amount tours else Fin 0)\<rparr>"

text \<open>
  The example library with another commission resolver: one that returns the rate \<open>r\<close>
  whatever the sale.
\<close>

definition constRateLib :: "rat \<Rightarrow> salesLib" where
  "constRateLib r = exampleLib\<lparr>calculateTotalCommission := (\<lambda>amount volume t. Fin r)\<rparr>"

definition exampleForm :: FormData where
  "exampleForm =
     \<lparr>FormData.date = ''2024-01-15'', clientLastName = ''Doe'', leadNumber = ''L-1'',
      numberOfTours = Fin 4, managerName = ''Roe'', saleAmount = ''2500.50'',
      commissionPercentage = ''6.50'', commissionAmount = ''162.53'', fdi = '''',
      fdiPoints = Fin (5001 / 2), fdiGivenPoints = Fin 0, fdiCost = Fin 0, notes' = '''',
      saleType = DEED, isCancelled = False\<rparr>"

definition exampleConfig :: config where
  "exampleConfig =
     \<lparr>deedTiers = [(0, 5), (100000, 6), (250000, 15 / 2)],
      trustTiers = [(0, 4), (150000, 5)],
      fdiExcessRate = 1 / 2\<rparr>"

section \<open>Properties of the rounding\<close>

lemma rne_error: "\<bar>of_int (rne x) - x\<bar> \<le> 1 / 2"
proof -
  have f: "of_int \<lfloor>x\<rfloor> \<le> x" "x < of_int \<lfloor>x\<rfloor> + 1" by linarith+
  show ?thesis
  proof (cases "x - of_int \<lfloor>x\<rfloor> < 1 / 2")
    case True
    then have "rne x = \<lfloor>x\<rfloor>" by (simp add: rne_def)
    then show ?thesis using True f by simp
  next
    case False
    show ?thesis
    proof (cases "1 / 2 < x - of_int \<lfloor>x\<rfloor>")
      case True
      then have "rne x = \<lfloor>x\<rfloor> + 1" using False by (simp add: rne_def)
      then show ?thesis using True f by simp
    next
      case half: False
      then have d: "x - of_int \<lfloor>x\<rfloor> = 1 / 2" using False by simp
      have "rne x = \<lfloor>x\<rfloor> \<or> rne x = \<lfloor>x\<rfloor> + 1" by (simp add: rne_def Let_def)
      then show ?thesis using d by auto
    qed
  qed
qed

lemma rne_eval: "of_int m - 1 / 2 < x \<Longrightarrow> x < of_int m + 1 / 2 \<Longrightarrow> rne x = m"
proof -
  assume a: "of_int m - 1 / 2 < x" "x < of_int m + 1 / 2"
  show "rne x = m"
  proof (cases "of_int m \<le> x")
    case True
    then have "\<lfloor>x\<rfloor> = m" using a by linarith
    then show ?thesis using a by (simp add: rne_def)
  next
    case False
    then have fl: "\<lfloor>x\<rfloor> = m - 1" using a by linarith
    have "1 / 2 < x - of_int (m - 1)" using a by simp
    then show ?thesis using fl by (simp add: rne_def)
  qed
qed

lemma rne_int: "rne (of_int m) = m"
  by (rule rne_eval) simp_all

lemma expoFrom_eq:
  assumes "e0 \<le> e" and "e - e0 \<le> int n" and "x < 2 ^ 53 * 2 powi e"
    and "\<And>i. e0 \<le> i \<Longrightarrow> i < e \<Longrightarrow> \<not> x < 2 ^ 53 * 2 powi i"
  shows "expoFrom n e0 x = e"
  using assms
proof (induction n arbitrary: e0)
  case 0
  then show ?case by simp
next
  case (Suc n)
  show ?case
  proof (cases "e0 = e")
    case True
    then show ?thesis using Suc.prems(3) by simp
  next
    case False
    then have lt: "e0 < e" using Suc.prems(1) by simp
    then have "\<not> x < 2 ^ 53 * 2 powi e0" using Suc.prems(4) by simp
    moreover have "expoFrom n (e0 + 1) x = e"
      using lt Suc.prems by (intro Suc.IH) auto
    ultimately show ?thesis by simp
  qed
qed

lemma pow_shift: "2 ^ 53 * 2 powi i \<le> 2 ^ 52 * (2 powi e :: rat)" if "i < e" for i e :: int
proof -
  have "(2 :: rat) powi i \<le> 2 powi (e - 1)" using that by (intro power_int_increasing) auto
  also have "\<dots> = 2 powi e / 2" by (simp add: power_int_diff)
  finally show ?thesis by simp
qed

lemma expo_eq:
  assumes "- 1074 \<le> e" and "e \<le> 971" and "x < 2 ^ 53 * 2 powi e"
    and "e = - 1074 \<or> 2 ^ 52 * 2 powi e \<le> x"
  shows "expo x = e"
  unfolding expo_def
proof (rule expoFrom_eq)
  show "- 1074 \<le> e" by fact
  show "e - - 1074 \<le> int 2045" using assms(2) by simp
  show "x < 2 ^ 53 * 2 powi e" by fact
  fix i :: int assume i: "- 1074 \<le> i" "i < e"
  then have "2 ^ 52 * 2 powi e \<le> x" using assms(4) assms(1) by auto
  with pow_shift [OF i(2)] show "\<not> x < 2 ^ 53 * 2 powi i" by linarith
qed

lemma expoFrom_range: "e0 \<le> expoFrom n e0 x \<and> expoFrom n e0 x \<le> e0 + int n"
proof (induction n arbitrary: e0)
  case 0
  then show ?case by simp
next
  case (Suc n)
  from Suc.IH [of "e0 + 1"] show ?case by (cases "x < 2 ^ 53 * 2 powi e0") auto
qed

lemma expoFrom_lower:
  "expoFrom n e0 x = e0 \<or> 2 ^ 52 * 2 powi (expoFrom n e0 x) \<le> x"
proof (induction n arbitrary: e0)
  case 0
  then show ?case by simp
next
  case (Suc n)
  show ?case
  proof (cases "x < 2 ^ 53 * 2 powi e0")
    case True
    then show ?thesis by simp
  next
    case False
    from Suc.IH [of "e0 + 1"] show ?thesis
    proof
      assume eq: "expoFrom n (e0 + 1) x = e0 + 1"
      have "(2 :: rat) ^ 52 * 2 powi (e0 + 1) = 2 ^ 53 * 2 powi e0" by (simp add: power_int_add)
      then show ?thesis using False eq by simp
    next
      assume "2 ^ 52 * 2 powi expoFrom n (e0 + 1) x \<le> x"
      then show ?thesis using False by simp
    qed
  qed
qed


lemma expo_range: "- 1074 \<le> expo x \<and> expo x \<le> 971"
  using expoFrom_range [of "- 1074" 2045 x] by (simp add: expo_def)

lemma expo_lower: "expo x = - 1074 \<or> 2 ^ 52 * 2 powi (expo x) \<le> x"
  using expoFrom_lower [of 2045 "- 1074" x] by (simp add: expo_def)

lemma rne_nonneg: "0 \<le> x \<Longrightarrow> 0 \<le> rne x"
proof -
  assume "0 \<le> x"
  then have "0 \<le> \<lfloor>x\<rfloor>" by simp
  moreover have "rne x = \<lfloor>x\<rfloor> \<or> rne x = \<lfloor>x\<rfloor> + 1" by (simp add: rne_def Let_def)
  ultimately show ?thesis by auto
qed

lemma flPos_cases: "flPos x = PosInf \<or> flPos x = Fin (of_int (rne (x / 2 powi expo x)) * 2 powi expo x)"
  by (simp add: flPos_def Let_def)

lemma flPos_error:
  assumes "0 < x" and "flPos x = Fin y"
  shows "\<bar>y - x\<bar> \<le> x / 2 ^ 53 + 1 / 2 ^ 1075"
proof -
  define e where "e = expo x"
  define m where "m = rne (x / 2 powi e)"
  have p: "(0 :: rat) < 2 powi e" by simp
  have y: "y = of_int m * 2 powi e"
    using assms(2) flPos_cases [of x] by (simp add: e_def m_def)
  have "\<bar>of_int m - x / 2 powi e\<bar> \<le> 1 / 2" unfolding m_def by (rule rne_error)
  then have "\<bar>of_int m - x / 2 powi e\<bar> * 2 powi e \<le> 1 / 2 * 2 powi e"
    using p by (intro mult_right_mono) auto
  moreover have "\<bar>of_int m - x / 2 powi e\<bar> * 2 powi e = \<bar>y - x\<bar>"
  proof -
    have "\<bar>of_int m - x / 2 powi e\<bar> * 2 powi e = \<bar>(of_int m - x / 2 powi e) * 2 powi e\<bar>"
      using p by (simp add: abs_mult)
    also have "(of_int m - x / 2 powi e) * 2 powi e = y - x"
      using p by (simp add: y algebra_simps)
    finally show ?thesis .
  qed
  ultimately have err: "\<bar>y - x\<bar> \<le> 2 powi e / 2" by simp
  from expo_lower [of x] show ?thesis
  proof
    assume "expo x = - 1074"
    then have "(2 :: rat) powi e / 2 = 1 / 2 ^ 1075" by (simp add: e_def power_int_minus_divide)
    with err assms(1) show ?thesis by simp
  next
    assume "2 ^ 52 * 2 powi expo x \<le> x"
    then have "2 powi e / 2 \<le> x / 2 ^ 53" by (simp add: e_def field_simps)
    with err show ?thesis by simp
  qed
qed

lemma flPos_nonneg: "0 < x \<Longrightarrow> flPos x = Fin y \<Longrightarrow> 0 \<le> y"
proof -
  assume x: "0 < x" and "flPos x = Fin y"
  then have y: "y = of_int (rne (x / 2 powi expo x)) * 2 powi expo x"
    using flPos_cases [of x] by simp
  have "0 \<le> x / 2 powi expo x" using x by simp
  then have "0 \<le> rne (x / 2 powi expo x)" by (rule rne_nonneg)
  then show "0 \<le> y" by (simp add: y)
qed

lemma flPos_not: "flPos x \<noteq> NaN" "flPos x \<noteq> NegInf"
  using flPos_cases [of x] by auto

lemma fl_not_NaN: "fl x \<noteq> NaN"
  using flPos_cases [of x] flPos_cases [of "- x"] by (auto simp add: fl_def)

lemma fl_error:
  assumes "fl x = Fin y"
  shows "\<bar>y - x\<bar> \<le> \<bar>x\<bar> / 2 ^ 53 + 1 / 2 ^ 1075"
proof -
  consider "x = 0" | "0 < x" | "x < 0" by linarith
  then show ?thesis
  proof cases
    case 1
    then show ?thesis using assms by (simp add: fl_def)
  next
    case 2
    then have "flPos x = Fin y" using assms by (simp add: fl_def)
    from flPos_error [OF 2 this] 2 show ?thesis by simp
  next
    case 3
    then have n: "js_neg (flPos (- x)) = Fin y" using assms by (simp add: fl_def)
    then have "flPos (- x) = Fin (- y)" by (cases "flPos (- x)") auto
    from flPos_error [OF _ this] 3 show ?thesis by simp
  qed
qed

lemma fl_eval:
  assumes "0 < x" and "- 1074 \<le> e" and "e \<le> 971" and "x < 2 ^ 53 * 2 powi e"
    and "e = - 1074 \<or> 2 ^ 52 * 2 powi e \<le> x"
    and "of_int m - 1 / 2 < x / 2 powi e" and "x / 2 powi e < of_int m + 1 / 2"
    and "of_int m * 2 powi e = y" and "y < 2 ^ 1024"
  shows "fl x = Fin y"
proof -
  have e: "expo x = e" using assms(2-5) by (rule expo_eq)
  have m: "rne (x / 2 powi e) = m" using assms(6,7) by (rule rne_eval)
  show ?thesis using assms(1,8,9) by (simp add: fl_def flPos_def e m)
qed

lemma fl_neg: "fl (- x) = js_neg (fl x)"
proof -
  have "js_neg (js_neg a) = a" for a by (cases a) simp_all
  then show ?thesis by (simp add: fl_def)
qed

lemma fl_eval_neg:
  assumes "0 < x" and "- 1074 \<le> e" and "e \<le> 971" and "x < 2 ^ 53 * 2 powi e"
    and "e = - 1074 \<or> 2 ^ 52 * 2 powi e \<le> x"
    and "of_int m - 1 / 2 < x / 2 powi e" and "x / 2 powi e < of_int m + 1 / 2"
    and "of_int m * 2 powi e = y" and "y < 2 ^ 1024"
  shows "fl (- x) = Fin (- y)"
  using fl_eval [OF assms] by (simp add: fl_neg)

lemma expoFrom_upper:
  "expoFrom n e0 x = e0 + int n \<or> x < 2 ^ 53 * 2 powi (expoFrom n e0 x)"
proof (induction n arbitrary: e0)
  case 0
  then show ?case by simp
next
  case (Suc n)
  from Suc.IH [of "e0 + 1"] show ?case by (cases "x < 2 ^ 53 * 2 powi e0") auto
qed

lemma expo_upper: "expo x = 971 \<or> x < 2 ^ 53 * 2 powi (expo x)"
  using expoFrom_upper [of 2045 "- 1074" x] by (simp add: expo_def)

lemma rne_le: "of_int (rne x) \<le> x + 1 / 2"
  using rne_error [of x] by linarith

lemma rne_ge: "x - 1 / 2 \<le> of_int (rne x)"
  using rne_error [of x] by linarith

lemma flPos_finite:
  assumes "0 < x" and "x < 2 ^ 1023"
  shows "\<exists>y. flPos x = Fin y"
proof -
  define e where "e = expo x"
  define m where "m = rne (x / 2 powi e)"
  have p: "(0 :: rat) < 2 powi e" by simp
  have ne: "e \<noteq> 971"
  proof
    assume e: "e = 971"
    with expo_lower [of x] have "2 ^ 52 * 2 powi (971 :: int) \<le> x" by (simp add: e_def)
    then show False using assms(2) by simp
  qed
  then have up: "x < 2 ^ 53 * 2 powi e" using expo_upper [of x] by (simp add: e_def)
  have "e \<le> 970" using ne expo_range [of x] by (simp add: e_def)
  then have pe: "(2 :: rat) powi e \<le> 2 powi 970" by (intro power_int_increasing) auto
  have "x / 2 powi e < 2 ^ 53" using up p by (simp add: field_simps)
  then have "(of_int m :: rat) < 2 ^ 53 + 1 / 2" using rne_le [of "x / 2 powi e"] by (simp add: m_def)
  then have "(of_int m :: rat) < of_int (2 ^ 53 + 1)" by simp
  then have "m < 2 ^ 53 + 1" by (simp only: of_int_less_iff)
  then have "m \<le> 2 ^ 53" by simp
  then have "(of_int m :: rat) \<le> of_int (2 ^ 53)" by (simp only: of_int_le_iff)
  then have "(of_int m :: rat) \<le> 2 ^ 53" by simp
  then have "of_int m * 2 powi e \<le> 2 ^ 53 * (2 powi e :: rat)"
    using p by (intro mult_right_mono) auto
  also have "\<dots> \<le> 2 ^ 53 * 2 powi 970" using pe by simp
  also have "\<dots> < 2 ^ 1024" by simp
  finally have "\<not> 2 ^ 1024 \<le> (of_int m :: rat) * 2 powi e" by simp
  then show ?thesis by (simp add: flPos_def Let_def e_def m_def)
qed

lemma fl_finite:
  assumes "\<bar>x\<bar> < 2 ^ 1023"
  shows "\<exists>y. fl x = Fin y"
proof -
  consider "x = 0" | "0 < x" | "x < 0" by linarith
  then show ?thesis
  proof cases
    case 1
    then show ?thesis by (simp add: fl_def)
  next
    case 2
    then show ?thesis using flPos_finite [of x] assms by (simp add: fl_def)
  next
    case 3
    then obtain y where "flPos (- x) = Fin y" using flPos_finite [of "- x"] assms by auto
    then show ?thesis using 3 by (simp add: fl_def)
  qed
qed

lemma expoFrom_none:
  assumes "\<And>i. e0 \<le> i \<Longrightarrow> i < e0 + int n \<Longrightarrow> \<not> x < 2 ^ 53 * 2 powi i"
  shows "expoFrom n e0 x = e0 + int n"
  using assms
proof (induction n arbitrary: e0)
  case 0
  then show ?case by simp
next
  case (Suc n)
  have "\<not> x < 2 ^ 53 * 2 powi e0" using Suc.prems [of e0] by simp
  moreover have "expoFrom n (e0 + 1) x = e0 + 1 + int n"
    using Suc.prems by (intro Suc.IH) auto
  ultimately show ?case by simp
qed

lemma fl_overflow:
  assumes "2 ^ 1024 \<le> x"
  shows "fl x = PosInf"
proof -
  have big: "\<not> x < 2 ^ 53 * 2 powi i" if "i < 971" for i :: int
  proof -
    have "(2 :: rat) powi i \<le> 2 powi 971" using that by (intro power_int_increasing) auto
    then have "2 ^ 53 * (2 :: rat) powi i \<le> 2 ^ 53 * 2 powi 971" by simp
    also have "\<dots> = 2 ^ 1024" by simp
    finally show ?thesis using assms by simp
  qed
  have "expoFrom 2045 (- 1074) x = - 1074 + int 2045"
    by (rule expoFrom_none) (use big in auto)
  then have e: "expo x = 971" by (simp add: expo_def)
  have "2 ^ 53 \<le> x / 2 powi (971 :: int)" using assms by (simp add: field_simps)
  then have "(2 ^ 53 - 1 / 2 :: rat) \<le> of_int (rne (x / 2 powi (971 :: int)))"
    using rne_ge [of "x / 2 powi (971 :: int)"] by linarith
  then have "(of_int (2 ^ 53 - 1) :: rat) < of_int (rne (x / 2 powi (971 :: int)))" by simp
  then have "2 ^ 53 - 1 < rne (x / 2 powi (971 :: int))" by (simp only: of_int_less_iff)
  then have "2 ^ 53 \<le> rne (x / 2 powi (971 :: int))" by simp
  then have "(of_int (2 ^ 53) :: rat) \<le> of_int (rne (x / 2 powi (971 :: int)))"
    by (simp only: of_int_le_iff)
  then have "(2 ^ 53 :: rat) * 2 powi (971 :: int) \<le>
      of_int (rne (x / 2 powi (971 :: int))) * 2 powi (971 :: int)"
    by (intro mult_right_mono) auto
  then have "2 ^ 1024 \<le> of_int (rne (x / 2 powi (971 :: int))) * (2 powi (971 :: int) :: rat)"
    by simp
  moreover have "0 < x" using assms by (rule less_le_trans [rotated]) simp
  ultimately show ?thesis by (simp add: fl_def flPos_def e)
qed

lemma js_or_fl: "js_or (fl x) (Fin 0) = fl x"
  using fl_not_NaN [of x] by (auto simp add: js_or_def)

lemma round_half_up_error: "\<bar>of_int \<lfloor>y + 1 / 2\<rfloor> - y\<bar> \<le> (1 / 2 :: rat)"
  by linarith

section \<open>Properties of the form's arithmetic\<close>

lemma js_div_100: "js_div (Fin a) (Fin 100) = fl (a / 100)"
  by simp

text \<open>
  \<open>Math.round(y) / 100 || 0\<close> at a finite \<open>y\<close> is the binary64 number nearest to
  \<open>k / 100\<close>, where \<open>k\<close> is \<open>y\<close> rounded to an integer.
\<close>

lemma cents_of_Fin:
  "js_or (js_div (Math_round (Fin y)) (Fin 100)) (Fin 0) = fl (of_int \<lfloor>y + 1 / 2\<rfloor> / 100)"
  by (simp add: js_or_fl)

lemma round_to_cents_cases:
  "(fl (x * 100) = PosInf \<and>
      js_or (js_div (Math_round (js_mul (Fin x) (Fin 100))) (Fin 100)) (Fin 0) = PosInf) \<or>
   (fl (x * 100) = NegInf \<and>
      js_or (js_div (Math_round (js_mul (Fin x) (Fin 100))) (Fin 100)) (Fin 0) = NegInf) \<or>
   (\<exists>k. js_or (js_div (Math_round (js_mul (Fin x) (Fin 100))) (Fin 100)) (Fin 0) =
          fl (of_int k / 100) \<and>
        \<bar>of_int k - 100 * x\<bar> \<le> 1 / 2 + 100 * \<bar>x\<bar> / 2 ^ 53 + 1 / 2 ^ 1075)"
proof (cases "fl (x * 100)")
  case NaN
  then show ?thesis using fl_not_NaN by blast
next
  case PosInf
  then show ?thesis by (simp add: js_or_def)
next
  case NegInf
  then show ?thesis by (simp add: js_or_def)
next
  case (Fin y)
  define k where "k = \<lfloor>y + 1 / 2\<rfloor>"
  have "\<bar>y - x * 100\<bar> \<le> \<bar>x * 100\<bar> / 2 ^ 53 + 1 / 2 ^ 1075" using Fin by (rule fl_error)
  moreover have "\<bar>x * 100\<bar> = 100 * \<bar>x\<bar>" by (simp add: abs_mult)
  moreover have "\<bar>of_int k - y\<bar> \<le> 1 / 2" unfolding k_def by (rule round_half_up_error)
  ultimately have "\<bar>of_int k - 100 * x\<bar> \<le> 1 / 2 + 100 * \<bar>x\<bar> / 2 ^ 53 + 1 / 2 ^ 1075"
    by linarith
  moreover have "js_or (js_div (Math_round (js_mul (Fin x) (Fin 100))) (Fin 100)) (Fin 0) =
      fl (of_int k / 100)"
    using Fin cents_of_Fin [of y] by (simp add: k_def)
  ultimately show ?thesis by blast
qed


text \<open>
  \<open>Math.round(a * (r / 100) * 100) / 100\<close> for an amount up to \<open>2 ^ 40\<close> and a rate up to
  100: three operations are rounded before \<open>Math.round\<close>, each with a relative error
  of at most \<open>2 ^ -53\<close>.
\<close>

lemma commissionAmountOf_bound:
  assumes "\<bar>a\<bar> \<le> 2 ^ 40" and "\<bar>r\<bar> \<le> 100"
  shows "\<exists>k. commissionAmountOf (Fin a) (Fin r) = fl (of_int k / 100) \<and>
             \<bar>of_int k - a * r\<bar> \<le> 1 / 2 + \<bar>a * r\<bar> / 2 ^ 51 + 1 / 2 ^ 1000"
proof -
  define A where "A = \<bar>a\<bar>"
  define Q where "Q = \<bar>a * r\<bar>"
  have A: "0 \<le> A" "A \<le> 2 ^ 40" using assms(1) by (simp_all add: A_def)
  have Q: "0 \<le> Q" by (simp add: Q_def)
  have "\<bar>r / 100\<bar> < 2 ^ 1023" using assms(2) by simp
  then obtain t1 where t1: "fl (r / 100) = Fin t1" using fl_finite by blast
  have "\<bar>t1 - r / 100\<bar> \<le> \<bar>r / 100\<bar> / 2 ^ 53 + 1 / 2 ^ 1075" using t1 by (rule fl_error)
  then have e1: "\<bar>t1 - r / 100\<bar> \<le> \<bar>r\<bar> / 100 / 2 ^ 53 + 1 / 2 ^ 1075" by simp
  define D1 where "D1 = \<bar>a * t1 - a * r / 100\<bar>"
  have D1: "D1 \<le> Q / 100 / 2 ^ 53 + A / 2 ^ 1075"
  proof -
    have "a * t1 - a * r / 100 = a * (t1 - r / 100)" by (simp add: algebra_simps)
    then have "D1 = A * \<bar>t1 - r / 100\<bar>" by (simp add: D1_def A_def abs_mult)
    also have "\<dots> \<le> A * (\<bar>r\<bar> / 100 / 2 ^ 53 + 1 / 2 ^ 1075)"
      using e1 A(1) by (rule mult_left_mono)
    also have "\<dots> = Q / 100 / 2 ^ 53 + A / 2 ^ 1075"
      by (simp add: A_def Q_def abs_mult algebra_simps)
    finally show ?thesis .
  qed
  define X1 where "X1 = \<bar>a * t1\<bar>"
  have X1: "X1 \<le> Q / 100 + D1"
  proof -
    have "\<bar>a * t1\<bar> \<le> \<bar>a * r / 100\<bar> + \<bar>a * t1 - a * r / 100\<bar>" by linarith
    then show ?thesis by (simp add: X1_def D1_def Q_def)
  qed
  have Qb: "Q \<le> 2 ^ 40 * 100"
  proof -
    have "Q = \<bar>a\<bar> * \<bar>r\<bar>" by (simp add: Q_def abs_mult)
    also have "\<dots> \<le> 2 ^ 40 * 100" using assms by (intro mult_mono) auto
    finally show ?thesis .
  qed
  have "X1 < 2 ^ 1023" using X1 D1 Qb A by (simp; linarith)
  then obtain t2 where t2: "fl (a * t1) = Fin t2" using fl_finite [of "a * t1"] by (auto simp add: X1_def)
  define D2 where "D2 = \<bar>t2 - a * t1\<bar>"
  have D2: "D2 \<le> X1 / 2 ^ 53 + 1 / 2 ^ 1075"
    unfolding D2_def X1_def using t2 by (rule fl_error)
  define X2 where "X2 = \<bar>t2\<bar>"
  have X2: "X2 \<le> X1 + D2"
  proof -
    have "\<bar>t2\<bar> \<le> \<bar>a * t1\<bar> + \<bar>t2 - a * t1\<bar>" by linarith
    then show ?thesis by (simp add: X2_def X1_def D2_def)
  qed
  have x2: "\<bar>t2 * 100\<bar> = 100 * X2" by (simp add: X2_def abs_mult)
  have "100 * X2 < 2 ^ 1023" using X2 D2 X1 D1 Qb A by (simp; linarith)
  then obtain t3 where t3: "fl (t2 * 100) = Fin t3" using fl_finite [of "t2 * 100"] x2 by auto
  define D3 where "D3 = \<bar>t3 - t2 * 100\<bar>"
  have D3: "D3 \<le> 100 * X2 / 2 ^ 53 + 1 / 2 ^ 1075"
  proof -
    have "D3 \<le> \<bar>t2 * 100\<bar> / 2 ^ 53 + 1 / 2 ^ 1075" unfolding D3_def using t3 by (rule fl_error)
    then show ?thesis by (simp only: x2)
  qed
  define k where "k = \<lfloor>t3 + 1 / 2\<rfloor>"
  define E where "E = \<bar>t3 - a * r\<bar>"
  have tri: "E \<le> D3 + 100 * D2 + 100 * D1"
  proof -
    have s2: "\<bar>t2 * 100 - a * t1 * 100\<bar> = 100 * D2"
    proof -
      have "t2 * 100 - a * t1 * 100 = 100 * (t2 - a * t1)" by simp
      then show ?thesis by (simp only: abs_mult D2_def; simp)
    qed
    have s1: "\<bar>a * t1 * 100 - a * r\<bar> = 100 * D1"
    proof -
      have "a * t1 * 100 - a * r = 100 * (a * t1 - a * r / 100)" by simp
      then show ?thesis by (simp only: abs_mult D1_def; simp)
    qed
    have "\<bar>t3 - a * r\<bar> \<le> \<bar>t3 - t2 * 100\<bar> + \<bar>t2 * 100 - a * t1 * 100\<bar> +
        \<bar>a * t1 * 100 - a * r\<bar>"
      by linarith
    then show ?thesis by (simp only: s1 s2 E_def D3_def)
  qed
  have E: "E \<le> Q / 2 ^ 51 + 1 / 2 ^ 1001"
    using tri D3 D2 D1 X2 X1 A Q by (simp; linarith)
  have "\<bar>of_int k - t3\<bar> \<le> 1 / 2" unfolding k_def by (rule round_half_up_error)
  moreover have "\<bar>of_int k - a * r\<bar> \<le> \<bar>of_int k - t3\<bar> + \<bar>t3 - a * r\<bar>" by linarith
  ultimately have "\<bar>of_int k - a * r\<bar> \<le> 1 / 2 + \<bar>a * r\<bar> / 2 ^ 51 + 1 / 2 ^ 1000"
    using E by (simp add: E_def Q_def)
  moreover have "commissionAmountOf (Fin a) (Fin r) = fl (of_int k / 100)"
    by (simp add: commissionAmountOf_def t1 t2 t3 k_def)
  ultimately show ?thesis by blast
qed

section \<open>Computations at given inputs\<close>

lemmas literal_eval =
  strDecimalLiteral_def isWhiteSpace_def isDigit_def digitsVal_def exponentPart_def scale10_def
  Let_def

lemma Math_round_eval:
  assumes "of_int k \<le> y + 1 / 2" and "y + 1 / 2 < of_int k + 1" and "of_int k = z"
  shows "Math_round (Fin y) = Fin z"
proof -
  have "\<lfloor>y + 1 / 2\<rfloor> = k" using assms(1,2) by linarith
  then show ?thesis using assms(3) by simp
qed

lemma parseFloat_blank: "parseFloat [] = NaN"
  by (simp add: parseFloat_def literal_eval)

lemma parseFloat_abc: "parseFloat ''abc'' = NaN"
  by (simp add: parseFloat_def literal_eval)

lemma parseFloat_Infinity: "parseFloat ''Infinity'' = PosInf"
  by (simp add: parseFloat_def literal_eval)

lemma parseFloat_minus_Infinity: "parseFloat ''-Infinity'' = NegInf"
  by (simp add: parseFloat_def literal_eval)

lemma parseFloat_nbsp: "parseFloat [char_of (160 :: nat), CHR ''5''] = Fin 5"
proof -
  have "strDecimalLiteral [char_of (160 :: nat), CHR ''5''] = Decimal 5"
    by (simp add: literal_eval)
  moreover have "fl 5 = Fin 5"
    by (rule fl_eval [where e = "- 50" and m = "5629499534213120"]; simp add: power_int_minus_divide)
  ultimately show ?thesis by (simp add: parseFloat_def)
qed

lemma parseFloat_minus_5:
  "parseFloat ''-5'' = Fin (- 5)"
proof -
  have "strDecimalLiteral ''-5'' = Decimal (- 5)" by (simp add: literal_eval)
  then have p: "parseFloat ''-5'' = fl (- 5)" by (simp add: parseFloat_def)
  have "(- 5 :: rat) = - 5" by simp
  moreover have "fl (- 5) = Fin (- 5)"
    by (rule fl_eval_neg [where e = "- 50" and m = "5629499534213120"]; simp add: power_int_minus_divide)
  ultimately have "fl (- 5) = Fin (- 5)" by (simp only:)
  then have s1: "parseFloat ''-5'' = Fin (- 5)" by (simp only: p)
  show ?thesis by (rule s1)
qed


lemma parseFloat_0_615:
  "parseFloat ''0.615'' = Fin (2769713770832855 / 4503599627370496)"
proof -
  have "strDecimalLiteral ''0.615'' = Decimal (123 / 200)" by (simp add: literal_eval)
  then have p: "parseFloat ''0.615'' = fl (123 / 200)" by (simp add: parseFloat_def)
  have "(123 / 200 :: rat) = 123 / 200" by simp
  moreover have "fl (123 / 200) = Fin (2769713770832855 / 4503599627370496)"
    by (rule fl_eval [where e = "- 53" and m = "5539427541665710"]; simp add: power_int_minus_divide)
  ultimately have "fl (123 / 200) = Fin (2769713770832855 / 4503599627370496)" by (simp only:)
  then have s1: "parseFloat ''0.615'' = Fin (2769713770832855 / 4503599627370496)" by (simp only: p)
  show ?thesis by (rule s1)
qed

lemma parseFloat_2500_005:
  "parseFloat ''2500.005'' = Fin (2748784566998139 / 1099511627776)"
proof -
  have "strDecimalLiteral ''2500.005'' = Decimal (500001 / 200)" by (simp add: literal_eval)
  then have p: "parseFloat ''2500.005'' = fl (500001 / 200)" by (simp add: parseFloat_def)
  have "(500001 / 200 :: rat) = 500001 / 200" by simp
  moreover have "fl (500001 / 200) = Fin (2748784566998139 / 1099511627776)"
    by (rule fl_eval [where e = "- 41" and m = "5497569133996278"]; simp add: power_int_minus_divide)
  ultimately have "fl (500001 / 200) = Fin (2748784566998139 / 1099511627776)" by (simp only:)
  then have s1: "parseFloat ''2500.005'' = Fin (2748784566998139 / 1099511627776)" by (simp only: p)
  show ?thesis by (rule s1)
qed

lemma parseFloat_1_005:
  "parseFloat ''1.005'' = Fin (1131529406376837 / 1125899906842624)"
proof -
  have "strDecimalLiteral ''1.005'' = Decimal (201 / 200)" by (simp add: literal_eval)
  then have p: "parseFloat ''1.005'' = fl (201 / 200)" by (simp add: parseFloat_def)
  have "(201 / 200 :: rat) = 201 / 200" by simp
  moreover have "fl (201 / 200) = Fin (1131529406376837 / 1125899906842624)"
    by (rule fl_eval [where e = "- 52" and m = "4526117625507348"]; simp add: power_int_minus_divide)
  ultimately have "fl (201 / 200) = Fin (1131529406376837 / 1125899906842624)" by (simp only:)
  then have s1: "parseFloat ''1.005'' = Fin (1131529406376837 / 1125899906842624)" by (simp only: p)
  show ?thesis by (rule s1)
qed


lemma saleAmountOf_minus_5:
  "saleAmountOf ''-5'' = Fin (- 5)"
proof -
  have "strDecimalLiteral ''-5'' = Decimal (- 5)" by (simp add: literal_eval)
  then have p: "parseFloat ''-5'' = fl (- 5)" by (simp add: parseFloat_def)
  have "(- 5 :: rat) = - 5" by simp
  moreover have "fl (- 5) = Fin (- 5)"
    by (rule fl_eval_neg [where e = "- 50" and m = "5629499534213120"]; simp add: power_int_minus_divide)
  ultimately have "fl (- 5) = Fin (- 5)" by (simp only:)
  then have s1: "parseFloat ''-5'' = Fin (- 5)" by (simp only: p)
  have "((- 5) * 100 :: rat) = - 500" by simp
  moreover have "fl (- 500) = Fin (- 500)"
    by (rule fl_eval_neg [where e = "- 44" and m = "8796093022208000"]; simp add: power_int_minus_divide)
  ultimately have "fl ((- 5) * 100) = Fin (- 500)" by (simp only:)
  then have s2: "js_mul (Fin (- 5)) (Fin 100) = Fin (- 500)" by (simp only: js_mul.simps)
  have s3: "Math_round (Fin (- 500)) = Fin (- 500)"
    by (rule Math_round_eval [where k = "- 500"]; simp)
  have "((- 500) / 100 :: rat) = - 5" by simp
  moreover have "fl (- 5) = Fin (- 5)"
    by (rule fl_eval_neg [where e = "- 50" and m = "5629499534213120"]; simp add: power_int_minus_divide)
  ultimately have "fl ((- 500) / 100) = Fin (- 5)" by (simp only:)
  then have s4: "js_div (Fin (- 500)) (Fin 100) = Fin (- 5)" by (simp only: js_div_100)
  have s5: "js_or (Fin (- 5)) (Fin 0) = Fin (- 5)" by (simp add: js_or_def)
  show ?thesis by (simp only: saleAmountOf_def s1 s2 s3 s4 s5)
qed

lemma saleAmountOf_0_615:
  "saleAmountOf ''0.615'' = Fin (5584463537939415 / 9007199254740992)"
proof -
  have "strDecimalLiteral ''0.615'' = Decimal (123 / 200)" by (simp add: literal_eval)
  then have p: "parseFloat ''0.615'' = fl (123 / 200)" by (simp add: parseFloat_def)
  have "(123 / 200 :: rat) = 123 / 200" by simp
  moreover have "fl (123 / 200) = Fin (2769713770832855 / 4503599627370496)"
    by (rule fl_eval [where e = "- 53" and m = "5539427541665710"]; simp add: power_int_minus_divide)
  ultimately have "fl (123 / 200) = Fin (2769713770832855 / 4503599627370496)" by (simp only:)
  then have s1: "parseFloat ''0.615'' = Fin (2769713770832855 / 4503599627370496)" by (simp only: p)
  have "((2769713770832855 / 4503599627370496) * 100 :: rat) = 69242844270821375 / 1125899906842624" by simp
  moreover have "fl (69242844270821375 / 1125899906842624) = Fin (123 / 2)"
    by (rule fl_eval [where e = "- 47" and m = "8655355533852672"]; simp add: power_int_minus_divide)
  ultimately have "fl ((2769713770832855 / 4503599627370496) * 100) = Fin (123 / 2)" by (simp only:)
  then have s2: "js_mul (Fin (2769713770832855 / 4503599627370496)) (Fin 100) = Fin (123 / 2)" by (simp only: js_mul.simps)
  have s3: "Math_round (Fin (123 / 2)) = Fin 62"
    by (rule Math_round_eval [where k = "62"]; simp)
  have "(62 / 100 :: rat) = 31 / 50" by simp
  moreover have "fl (31 / 50) = Fin (5584463537939415 / 9007199254740992)"
    by (rule fl_eval [where e = "- 53" and m = "5584463537939415"]; simp add: power_int_minus_divide)
  ultimately have "fl (62 / 100) = Fin (5584463537939415 / 9007199254740992)" by (simp only:)
  then have s4: "js_div (Fin 62) (Fin 100) = Fin (5584463537939415 / 9007199254740992)" by (simp only: js_div_100)
  have s5: "js_or (Fin (5584463537939415 / 9007199254740992)) (Fin 0) = Fin (5584463537939415 / 9007199254740992)" by (simp add: js_or_def)
  show ?thesis by (simp only: saleAmountOf_def s1 s2 s3 s4 s5)
qed

lemma saleAmountOf_1_005:
  "saleAmountOf ''1.005'' = Fin 1"
proof -
  have "strDecimalLiteral ''1.005'' = Decimal (201 / 200)" by (simp add: literal_eval)
  then have p: "parseFloat ''1.005'' = fl (201 / 200)" by (simp add: parseFloat_def)
  have "(201 / 200 :: rat) = 201 / 200" by simp
  moreover have "fl (201 / 200) = Fin (1131529406376837 / 1125899906842624)"
    by (rule fl_eval [where e = "- 52" and m = "4526117625507348"]; simp add: power_int_minus_divide)
  ultimately have "fl (201 / 200) = Fin (1131529406376837 / 1125899906842624)" by (simp only:)
  then have s1: "parseFloat ''1.005'' = Fin (1131529406376837 / 1125899906842624)" by (simp only: p)
  have "((1131529406376837 / 1125899906842624) * 100 :: rat) = 28288235159420925 / 281474976710656" by simp
  moreover have "fl (28288235159420925 / 281474976710656) = Fin (7072058789855231 / 70368744177664)"
    by (rule fl_eval [where e = "- 46" and m = "7072058789855231"]; simp add: power_int_minus_divide)
  ultimately have "fl ((1131529406376837 / 1125899906842624) * 100) = Fin (7072058789855231 / 70368744177664)" by (simp only:)
  then have s2: "js_mul (Fin (1131529406376837 / 1125899906842624)) (Fin 100) = Fin (7072058789855231 / 70368744177664)" by (simp only: js_mul.simps)
  have s3: "Math_round (Fin (7072058789855231 / 70368744177664)) = Fin 100"
    by (rule Math_round_eval [where k = "100"]; simp)
  have "(100 / 100 :: rat) = 1" by simp
  moreover have "fl (1) = Fin 1"
    by (rule fl_eval [where e = "- 52" and m = "4503599627370496"]; simp add: power_int_minus_divide)
  ultimately have "fl (100 / 100) = Fin 1" by (simp only:)
  then have s4: "js_div (Fin 100) (Fin 100) = Fin 1" by (simp only: js_div_100)
  have s5: "js_or (Fin 1) (Fin 0) = Fin 1" by (simp add: js_or_def)
  show ?thesis by (simp only: saleAmountOf_def s1 s2 s3 s4 s5)
qed

lemma saleAmountOf_2500_055:
  "saleAmountOf ''2500.055'' = Fin (2748834045021389 / 1099511627776)"
proof -
  have "strDecimalLiteral ''2500.055'' = Decimal (500011 / 200)" by (simp add: literal_eval)
  then have p: "parseFloat ''2500.055'' = fl (500011 / 200)" by (simp add: parseFloat_def)
  have "(500011 / 200 :: rat) = 500011 / 200" by simp
  moreover have "fl (500011 / 200) = Fin (5497679085159055 / 2199023255552)"
    by (rule fl_eval [where e = "- 41" and m = "5497679085159055"]; simp add: power_int_minus_divide)
  ultimately have "fl (500011 / 200) = Fin (5497679085159055 / 2199023255552)" by (simp only:)
  then have s1: "parseFloat ''2500.055'' = Fin (5497679085159055 / 2199023255552)" by (simp only: p)
  have "((5497679085159055 / 2199023255552) * 100 :: rat) = 137441977128976375 / 549755813888" by simp
  moreover have "fl (137441977128976375 / 549755813888) = Fin (8590123570561023 / 34359738368)"
    by (rule fl_eval [where e = "- 35" and m = "8590123570561023"]; simp add: power_int_minus_divide)
  ultimately have "fl ((5497679085159055 / 2199023255552) * 100) = Fin (8590123570561023 / 34359738368)" by (simp only:)
  then have s2: "js_mul (Fin (5497679085159055 / 2199023255552)) (Fin 100) = Fin (8590123570561023 / 34359738368)" by (simp only: js_mul.simps)
  have s3: "Math_round (Fin (8590123570561023 / 34359738368)) = Fin 250005"
    by (rule Math_round_eval [where k = "250005"]; simp)
  have "(250005 / 100 :: rat) = 50001 / 20" by simp
  moreover have "fl (50001 / 20) = Fin (2748834045021389 / 1099511627776)"
    by (rule fl_eval [where e = "- 41" and m = "5497668090042778"]; simp add: power_int_minus_divide)
  ultimately have "fl (250005 / 100) = Fin (2748834045021389 / 1099511627776)" by (simp only:)
  then have s4: "js_div (Fin 250005) (Fin 100) = Fin (2748834045021389 / 1099511627776)" by (simp only: js_div_100)
  have s5: "js_or (Fin (2748834045021389 / 1099511627776)) (Fin 0) = Fin (2748834045021389 / 1099511627776)" by (simp add: js_or_def)
  show ?thesis by (simp only: saleAmountOf_def s1 s2 s3 s4 s5)
qed

lemma saleAmountOf_2500_50:
  "saleAmountOf ''2500.50'' = Fin (5001 / 2)"
proof -
  have "strDecimalLiteral ''2500.50'' = Decimal (5001 / 2)" by (simp add: literal_eval)
  then have p: "parseFloat ''2500.50'' = fl (5001 / 2)" by (simp add: parseFloat_def)
  have "(5001 / 2 :: rat) = 5001 / 2" by simp
  moreover have "fl (5001 / 2) = Fin (5001 / 2)"
    by (rule fl_eval [where e = "- 41" and m = "5498657650507776"]; simp add: power_int_minus_divide)
  ultimately have "fl (5001 / 2) = Fin (5001 / 2)" by (simp only:)
  then have s1: "parseFloat ''2500.50'' = Fin (5001 / 2)" by (simp only: p)
  have "((5001 / 2) * 100 :: rat) = 250050" by simp
  moreover have "fl (250050) = Fin 250050"
    by (rule fl_eval [where e = "- 35" and m = "8591652578918400"]; simp add: power_int_minus_divide)
  ultimately have "fl ((5001 / 2) * 100) = Fin 250050" by (simp only:)
  then have s2: "js_mul (Fin (5001 / 2)) (Fin 100) = Fin 250050" by (simp only: js_mul.simps)
  have s3: "Math_round (Fin 250050) = Fin 250050"
    by (rule Math_round_eval [where k = "250050"]; simp)
  have "(250050 / 100 :: rat) = 5001 / 2" by simp
  moreover have "fl (5001 / 2) = Fin (5001 / 2)"
    by (rule fl_eval [where e = "- 41" and m = "5498657650507776"]; simp add: power_int_minus_divide)
  ultimately have "fl (250050 / 100) = Fin (5001 / 2)" by (simp only:)
  then have s4: "js_div (Fin 250050) (Fin 100) = Fin (5001 / 2)" by (simp only: js_div_100)
  have s5: "js_or (Fin (5001 / 2)) (Fin 0) = Fin (5001 / 2)" by (simp add: js_or_def)
  show ?thesis by (simp only: saleAmountOf_def s1 s2 s3 s4 s5)
qed

lemma saleAmountOf_2500_25:
  "saleAmountOf ''2500.25'' = Fin (10001 / 4)"
proof -
  have "strDecimalLiteral ''2500.25'' = Decimal (10001 / 4)" by (simp add: literal_eval)
  then have p: "parseFloat ''2500.25'' = fl (10001 / 4)" by (simp add: parseFloat_def)
  have "(10001 / 4 :: rat) = 10001 / 4" by simp
  moreover have "fl (10001 / 4) = Fin (10001 / 4)"
    by (rule fl_eval [where e = "- 41" and m = "5498107894693888"]; simp add: power_int_minus_divide)
  ultimately have "fl (10001 / 4) = Fin (10001 / 4)" by (simp only:)
  then have s1: "parseFloat ''2500.25'' = Fin (10001 / 4)" by (simp only: p)
  have "((10001 / 4) * 100 :: rat) = 250025" by simp
  moreover have "fl (250025) = Fin 250025"
    by (rule fl_eval [where e = "- 35" and m = "8590793585459200"]; simp add: power_int_minus_divide)
  ultimately have "fl ((10001 / 4) * 100) = Fin 250025" by (simp only:)
  then have s2: "js_mul (Fin (10001 / 4)) (Fin 100) = Fin 250025" by (simp only: js_mul.simps)
  have s3: "Math_round (Fin 250025) = Fin 250025"
    by (rule Math_round_eval [where k = "250025"]; simp)
  have "(250025 / 100 :: rat) = 10001 / 4" by simp
  moreover have "fl (10001 / 4) = Fin (10001 / 4)"
    by (rule fl_eval [where e = "- 41" and m = "5498107894693888"]; simp add: power_int_minus_divide)
  ultimately have "fl (250025 / 100) = Fin (10001 / 4)" by (simp only:)
  then have s4: "js_div (Fin 250025) (Fin 100) = Fin (10001 / 4)" by (simp only: js_div_100)
  have s5: "js_or (Fin (10001 / 4)) (Fin 0) = Fin (10001 / 4)" by (simp add: js_or_def)
  show ?thesis by (simp only: saleAmountOf_def s1 s2 s3 s4 s5)
qed


lemma saleAmountOf_2500_005:
  "saleAmountOf ''2500.005'' = Fin (1374395032278139 / 549755813888)"
proof -
  have "strDecimalLiteral ''2500.005'' = Decimal (500001 / 200)" by (simp add: literal_eval)
  then have p: "parseFloat ''2500.005'' = fl (500001 / 200)" by (simp add: parseFloat_def)
  have "(500001 / 200 :: rat) = 500001 / 200" by simp
  moreover have "fl (500001 / 200) = Fin (2748784566998139 / 1099511627776)"
    by (rule fl_eval [where e = "- 41" and m = "5497569133996278"]; simp add: power_int_minus_divide)
  ultimately have "fl (500001 / 200) = Fin (2748784566998139 / 1099511627776)" by (simp only:)
  then have s1: "parseFloat ''2500.005'' = Fin (2748784566998139 / 1099511627776)" by (simp only: p)
  have "((2748784566998139 / 1099511627776) * 100 :: rat) = 68719614174953475 / 274877906944" by simp
  moreover have "fl (68719614174953475 / 274877906944) = Fin (500001 / 2)"
    by (rule fl_eval [where e = "- 35" and m = "8589951771869184"]; simp add: power_int_minus_divide)
  ultimately have "fl ((2748784566998139 / 1099511627776) * 100) = Fin (500001 / 2)" by (simp only:)
  then have s2: "js_mul (Fin (2748784566998139 / 1099511627776)) (Fin 100) = Fin (500001 / 2)" by (simp only: js_mul.simps)
  have s3: "Math_round (Fin (500001 / 2)) = Fin 250001"
    by (rule Math_round_eval [where k = "250001"]; simp)
  have "(250001 / 100 :: rat) = 250001 / 100" by simp
  moreover have "fl (250001 / 100) = Fin (1374395032278139 / 549755813888)"
    by (rule fl_eval [where e = "- 41" and m = "5497580129112556"]; simp add: power_int_minus_divide)
  ultimately have "fl (250001 / 100) = Fin (1374395032278139 / 549755813888)" by (simp only:)
  then have s4: "js_div (Fin 250001) (Fin 100) = Fin (1374395032278139 / 549755813888)" by (simp only: js_div_100)
  have s5: "js_or (Fin (1374395032278139 / 549755813888)) (Fin 0) = Fin (1374395032278139 / 549755813888)" by (simp add: js_or_def)
  show ?thesis by (simp only: saleAmountOf_def s1 s2 s3 s4 s5)
qed

lemma commissionAmountOf_2500_25_6:
  "commissionAmountOf (Fin (10001 / 4)) (Fin 6) = Fin (659750957130711 / 4398046511104)"
proof -
  have "(6 / 100 :: rat) = 3 / 50" by simp
  moreover have "fl (3 / 50) = Fin (1080863910568919 / 18014398509481984)"
    by (rule fl_eval [where e = "- 57" and m = "8646911284551352"]; simp add: power_int_minus_divide)
  ultimately have "fl (6 / 100) = Fin (1080863910568919 / 18014398509481984)" by (simp only:)
  then have s1: "js_div (Fin 6) (Fin 100) = Fin (1080863910568919 / 18014398509481984)" by (simp only: js_div_100)
  have "((10001 / 4) * (1080863910568919 / 18014398509481984) :: rat) = 10809719969599758919 / 72057594037927936" by simp
  moreover have "fl (10809719969599758919 / 72057594037927936) = Fin (1319545894726533 / 8796093022208)"
    by (rule fl_eval [where e = "- 45" and m = "5278183578906132"]; simp add: power_int_minus_divide)
  ultimately have "fl ((10001 / 4) * (1080863910568919 / 18014398509481984)) = Fin (1319545894726533 / 8796093022208)" by (simp only:)
  then have s2: "js_mul (Fin (10001 / 4)) (Fin (1080863910568919 / 18014398509481984)) = Fin (1319545894726533 / 8796093022208)" by (simp only: js_mul.simps)
  have "((1319545894726533 / 8796093022208) * 100 :: rat) = 32988647368163325 / 2199023255552" by simp
  moreover have "fl (32988647368163325 / 2199023255552) = Fin (8247161842040831 / 549755813888)"
    by (rule fl_eval [where e = "- 39" and m = "8247161842040831"]; simp add: power_int_minus_divide)
  ultimately have "fl ((1319545894726533 / 8796093022208) * 100) = Fin (8247161842040831 / 549755813888)" by (simp only:)
  then have s3: "js_mul (Fin (1319545894726533 / 8796093022208)) (Fin 100) = Fin (8247161842040831 / 549755813888)" by (simp only: js_mul.simps)
  have s4: "Math_round (Fin (8247161842040831 / 549755813888)) = Fin 15001"
    by (rule Math_round_eval [where k = "15001"]; simp)
  have "(15001 / 100 :: rat) = 15001 / 100" by simp
  moreover have "fl (15001 / 100) = Fin (659750957130711 / 4398046511104)"
    by (rule fl_eval [where e = "- 45" and m = "5278007657045688"]; simp add: power_int_minus_divide)
  ultimately have "fl (15001 / 100) = Fin (659750957130711 / 4398046511104)" by (simp only:)
  then have s5: "js_div (Fin 15001) (Fin 100) = Fin (659750957130711 / 4398046511104)" by (simp only: js_div_100)
  show ?thesis by (simp only: commissionAmountOf_def s1 s2 s3 s4 s5)
qed





lemma fl_250000_5:
  "fl ((2748784566998139 / 1099511627776) * 100) = Fin (500001 / 2)"
proof -
  have "((2748784566998139 / 1099511627776) * 100 :: rat) = 68719614174953475 / 274877906944" by simp
  moreover have "fl (68719614174953475 / 274877906944) = Fin (500001 / 2)"
    by (rule fl_eval [where e = "- 35" and m = "8589951771869184"]; simp add: power_int_minus_divide)
  ultimately have "fl ((2748784566998139 / 1099511627776) * 100) = Fin (500001 / 2)" by (simp only:)
  then show ?thesis .
qed

lemma fl_0_61:
  "fl (61 / 100) = Fin (5494391545392005 / 9007199254740992)"
proof -
  have "(61 / 100 :: rat) = 61 / 100" by simp
  moreover have "fl (61 / 100) = Fin (5494391545392005 / 9007199254740992)"
    by (rule fl_eval [where e = "- 53" and m = "5494391545392005"]; simp add: power_int_minus_divide)
  ultimately have "fl (61 / 100) = Fin (5494391545392005 / 9007199254740992)" by (simp only:)
  then show ?thesis .
qed

lemma fl_150_02:
  "fl (15002 / 100) = Fin (5278359500766577 / 35184372088832)"
proof -
  have "(15002 / 100 :: rat) = 7501 / 50" by simp
  moreover have "fl (7501 / 50) = Fin (5278359500766577 / 35184372088832)"
    by (rule fl_eval [where e = "- 45" and m = "5278359500766577"]; simp add: power_int_minus_divide)
  ultimately have "fl (15002 / 100) = Fin (5278359500766577 / 35184372088832)" by (simp only:)
  then show ?thesis .
qed

lemma saleAmountOf_1e308:
  "parseFloat ''1e308'' = Fin 100000000000000001097906362944045541740492309677311846336810682903157585404911491537163328978494688899061249669721172515611590283743140088328307009198146046031271664502933027185697489699588559043338384466165001178426897626212945177628091195786707458122783970171784415105291802893207873272974885715430223118336 \<and> saleAmountOf ''1e308'' = PosInf"
proof -
  have "strDecimalLiteral ''1e308'' = Decimal (10 ^ 308)" by (simp add: literal_eval)
  then have p: "parseFloat ''1e308'' = fl (10 ^ 308)" by (simp add: parseFloat_def)
  have "fl (10 ^ 308) = Fin 100000000000000001097906362944045541740492309677311846336810682903157585404911491537163328978494688899061249669721172515611590283743140088328307009198146046031271664502933027185697489699588559043338384466165001178426897626212945177628091195786707458122783970171784415105291802893207873272974885715430223118336"
    by (rule fl_eval [where e = "971" and m = "5010420900022432"]; simp)
  then have q: "parseFloat ''1e308'' = Fin 100000000000000001097906362944045541740492309677311846336810682903157585404911491537163328978494688899061249669721172515611590283743140088328307009198146046031271664502933027185697489699588559043338384466165001178426897626212945177628091195786707458122783970171784415105291802893207873272974885715430223118336" by (simp only: p)
  have "(2 :: rat) ^ 1024 \<le> 100000000000000001097906362944045541740492309677311846336810682903157585404911491537163328978494688899061249669721172515611590283743140088328307009198146046031271664502933027185697489699588559043338384466165001178426897626212945177628091195786707458122783970171784415105291802893207873272974885715430223118336 * 100" by simp
  then have "fl (100000000000000001097906362944045541740492309677311846336810682903157585404911491537163328978494688899061249669721172515611590283743140088328307009198146046031271664502933027185697489699588559043338384466165001178426897626212945177628091195786707458122783970171784415105291802893207873272974885715430223118336 * 100) = PosInf" by (rule fl_overflow)
  then have "saleAmountOf ''1e308'' = PosInf" by (simp add: saleAmountOf_def q js_or_def)
  then show ?thesis using q by simp
qed

section \<open>The handlers\<close>

lemma handleSubmit_fields:
  "Sale.saleAmount (fst (handleSubmit lib today editingSale volume formData)) =
     saleAmountOf (FormData.saleAmount formData)"
  "Sale.commissionPercentage (fst (handleSubmit lib today editingSale volume formData)) =
     js_div (Math_round (js_mul
       (calculateTotalCommission lib (saleAmountOf (FormData.saleAmount formData)) volume
         (FormData.saleType formData)) (Fin 100))) (Fin 100)"
  "Sale.commissionAmount (fst (handleSubmit lib today editingSale volume formData)) =
     commissionAmountOf (saleAmountOf (FormData.saleAmount formData))
       (calculateTotalCommission lib (saleAmountOf (FormData.saleAmount formData)) volume
         (FormData.saleType formData))"
  "Sale.fdiPoints (fst (handleSubmit lib today editingSale volume formData)) =
     calculateFDIPoints lib (saleAmountOf (FormData.saleAmount formData))"
  "Sale.fdiGivenPoints (fst (handleSubmit lib today editingSale volume formData)) =
     fdiGivenPointsOf (FormData.fdi formData)"
  "Sale.fdiCost (fst (handleSubmit lib today editingSale volume formData)) =
     calculateFDICost lib (fdiGivenPointsOf (FormData.fdi formData))
       (calculateFDIPoints lib (saleAmountOf (FormData.saleAmount formData)))"
  "Sale.dailyVPG (fst (handleSubmit lib today editingSale volume formData)) =
     calculateDailyVPG lib (saleAmountOf (FormData.saleAmount formData))
       (FormData.numberOfTours formData)"
  by (simp_all add: handleSubmit_def Let_def)


lemma handleSaleAmountChange_fields:
  "FormData.fdiPoints (handleSaleAmountChange lib toFixed2 volume formData amount) =
     calculateFDIPoints lib (saleAmountOf amount)"
  "FormData.fdiCost (handleSaleAmountChange lib toFixed2 volume formData amount) =
     calculateFDICost lib (fdiGivenPointsOf (FormData.fdi formData))
       (calculateFDIPoints lib (saleAmountOf amount))"
  by (simp_all add: handleSaleAmountChange_def Let_def)

lemma saleAmountOf_NaN: "parseFloat s = NaN \<Longrightarrow> saleAmountOf s = Fin 0"
  by (simp add: saleAmountOf_def js_or_def)

lemma saleAmountOf_PosInf: "parseFloat s = PosInf \<Longrightarrow> saleAmountOf s = PosInf"
  by (simp add: saleAmountOf_def js_or_def)

lemma saleAmountOf_NegInf: "parseFloat s = NegInf \<Longrightarrow> saleAmountOf s = NegInf"
  by (simp add: saleAmountOf_def js_or_def)

lemma saleAmountOf_Fin_cases:
  assumes "parseFloat s = Fin x"
  shows "(js_mul (Fin x) (Fin 100) = PosInf \<and> saleAmountOf s = PosInf) \<or>
         (js_mul (Fin x) (Fin 100) = NegInf \<and> saleAmountOf s = NegInf) \<or>
         (\<exists>k. saleAmountOf s = fl (of_int k / 100) \<and>
              \<bar>of_int k - 100 * x\<bar> \<le> 1 / 2 + 100 * \<bar>x\<bar> / 2 ^ 53 + 1 / 2 ^ 1075)"
  using round_to_cents_cases [of x] by (simp add: saleAmountOf_def assms)

lemma saleAmountOf_Fin_bounded:
  assumes "parseFloat s = Fin x" and "\<bar>x\<bar> \<le> 2 ^ 1000"
  shows "\<exists>k. saleAmountOf s = fl (of_int k / 100) \<and>
             \<bar>of_int k - 100 * x\<bar> \<le> 1 / 2 + 100 * \<bar>x\<bar> / 2 ^ 53 + 1 / 2 ^ 1075"
proof -
  have "\<bar>x * 100\<bar> = 100 * \<bar>x\<bar>" by (simp add: abs_mult)
  moreover have "100 * \<bar>x\<bar> < 2 ^ 1023" using assms(2) by (simp; linarith)
  ultimately have "\<bar>x * 100\<bar> < 2 ^ 1023" by simp
  then obtain y where "fl (x * 100) = Fin y" using fl_finite by blast
  then have "js_mul (Fin x) (Fin 100) = Fin y" by simp
  then show ?thesis using saleAmountOf_Fin_cases [OF assms(1)] by simp
qed



text \<open>
  C1 (as amended). The sale amount every handler computes with is
  \<open>Math.round(parseFloat(s) * 100) / 100 || 0\<close>. It is 0 when \<open>parseFloat\<close> gives
  \<open>NaN\<close> (blank or non-numeric text). When \<open>parseFloat\<close> gives a finite number \<open>x\<close>,
  negative or not, it is the binary64 number nearest to \<open>k / 100\<close> for an integer \<open>k\<close>
  that differs from \<open>100 * x\<close> by at most a half and the rounding error of the product,
  unless the product overflows, which a number of magnitude up to \<open>2 ^ 1000\<close> does not;
  it is then the infinity. An infinity stays as it is. A negative amount is not replaced
  by 0, and the value is the rounding of \<open>x\<close> to 2 decimal places only up to the error
  of binary64.
\<close>

theorem saleAmount_normalization:
  "(parseFloat s = NaN \<longrightarrow> saleAmountOf s = Fin 0) \<and>
   (\<forall>x. parseFloat s = Fin x \<longrightarrow>
      (js_mul (Fin x) (Fin 100) = PosInf \<and> saleAmountOf s = PosInf) \<or>
      (js_mul (Fin x) (Fin 100) = NegInf \<and> saleAmountOf s = NegInf) \<or>
      (\<exists>k. saleAmountOf s = fl (of_int k / 100) \<and>
           \<bar>of_int k - 100 * x\<bar> \<le> 1 / 2 + 100 * \<bar>x\<bar> / 2 ^ 53 + 1 / 2 ^ 1075)) \<and>
   (\<forall>x. parseFloat s = Fin x \<and> \<bar>x\<bar> \<le> 2 ^ 1000 \<longrightarrow>
      (\<exists>k. saleAmountOf s = fl (of_int k / 100) \<and>
           \<bar>of_int k - 100 * x\<bar> \<le> 1 / 2 + 100 * \<bar>x\<bar> / 2 ^ 53 + 1 / 2 ^ 1075)) \<and>
   (parseFloat s = PosInf \<longrightarrow> saleAmountOf s = PosInf) \<and>
   (parseFloat s = NegInf \<longrightarrow> saleAmountOf s = NegInf) \<and>
   Sale.saleAmount (fst (handleSubmit lib today editingSale volume formData)) =
     saleAmountOf (FormData.saleAmount formData) \<and>
   Sale.fdiPoints (fst (handleSubmit lib today editingSale volume formData)) =
     calculateFDIPoints lib (saleAmountOf (FormData.saleAmount formData)) \<and>
   FormData.fdiPoints (handleSaleAmountChange lib toFixed2 volume formData s) =
     calculateFDIPoints lib (saleAmountOf s)"
proof -
  have "(js_mul (Fin x) (Fin 100) = PosInf \<and> saleAmountOf s = PosInf) \<or>
      (js_mul (Fin x) (Fin 100) = NegInf \<and> saleAmountOf s = NegInf) \<or>
      (\<exists>k. saleAmountOf s = fl (of_int k / 100) \<and>
           \<bar>of_int k - 100 * x\<bar> \<le> 1 / 2 + 100 * \<bar>x\<bar> / 2 ^ 53 + 1 / 2 ^ 1075)"
    if "parseFloat s = Fin x" for x
    using that by (rule saleAmountOf_Fin_cases)
  moreover have "\<exists>k. saleAmountOf s = fl (of_int k / 100) \<and>
           \<bar>of_int k - 100 * x\<bar> \<le> 1 / 2 + 100 * \<bar>x\<bar> / 2 ^ 53 + 1 / 2 ^ 1075"
    if "parseFloat s = Fin x \<and> \<bar>x\<bar> \<le> 2 ^ 1000" for x
    using that saleAmountOf_Fin_bounded [of s x] by blast
  moreover have "parseFloat s = NaN \<longrightarrow> saleAmountOf s = Fin 0"
    and "parseFloat s = PosInf \<longrightarrow> saleAmountOf s = PosInf"
    and "parseFloat s = NegInf \<longrightarrow> saleAmountOf s = NegInf"
    by (simp_all add: saleAmountOf_NaN saleAmountOf_PosInf saleAmountOf_NegInf)
  moreover have "Sale.saleAmount (fst (handleSubmit lib today editingSale volume formData)) =
      saleAmountOf (FormData.saleAmount formData)"
    and "Sale.fdiPoints (fst (handleSubmit lib today editingSale volume formData)) =
      calculateFDIPoints lib (saleAmountOf (FormData.saleAmount formData))"
    and "FormData.fdiPoints (handleSaleAmountChange lib toFixed2 volume formData s) =
      calculateFDIPoints lib (saleAmountOf s)"
    by (simp_all add: handleSubmit_fields handleSaleAmountChange_fields)
  ultimately show ?thesis by blast
qed

theorem saleAmount_normalization_witness:
  "parseFloat '''' = NaN \<and> saleAmountOf '''' = Fin 0 \<and>
   parseFloat ''abc'' = NaN \<and> saleAmountOf ''abc'' = Fin 0 \<and>
   parseFloat ''2500.005'' = Fin (2748784566998139 / 1099511627776) \<and>
   \<bar>2748784566998139 / 1099511627776 :: rat\<bar> \<le> 2 ^ 1000 \<and>
   (\<exists>k. saleAmountOf ''2500.005'' = fl (of_int k / 100) \<and>
        \<bar>of_int k - 100 * (2748784566998139 / 1099511627776)\<bar> \<le>
          1 / 2 + 100 * \<bar>2748784566998139 / 1099511627776 :: rat\<bar> / 2 ^ 53 + 1 / 2 ^ 1075) \<and>
   parseFloat ''Infinity'' = PosInf \<and> saleAmountOf ''Infinity'' = PosInf \<and>
   parseFloat ''-Infinity'' = NegInf \<and> saleAmountOf ''-Infinity'' = NegInf"
proof -
  have b: "\<bar>2748784566998139 / 1099511627776 :: rat\<bar> \<le> 2 ^ 1000" by simp
  have "saleAmountOf '''' = Fin 0" "saleAmountOf ''abc'' = Fin 0"
    using saleAmount_normalization [of "''''"] saleAmount_normalization [of "''abc''"]
    by (simp_all add: parseFloat_blank parseFloat_abc)
  moreover have "saleAmountOf ''Infinity'' = PosInf" "saleAmountOf ''-Infinity'' = NegInf"
    using saleAmount_normalization [of "''Infinity''"]
      saleAmount_normalization [of "''-Infinity''"]
    by (simp_all add: parseFloat_Infinity parseFloat_minus_Infinity)
  moreover have "\<exists>k. saleAmountOf ''2500.005'' = fl (of_int k / 100) \<and>
        \<bar>of_int k - 100 * (2748784566998139 / 1099511627776)\<bar> \<le>
          1 / 2 + 100 * \<bar>2748784566998139 / 1099511627776 :: rat\<bar> / 2 ^ 53 + 1 / 2 ^ 1075"
    using saleAmount_normalization [of "''2500.005''"] parseFloat_2500_005 b by blast
  ultimately show ?thesis
    using b
    by (simp only: parseFloat_blank parseFloat_abc parseFloat_2500_005 parseFloat_Infinity
        parseFloat_minus_Infinity simp_thms)
qed

theorem saleAmount_negative_counterexample:
  "parseFloat ''-5'' = Fin (- 5) \<and> saleAmountOf ''-5'' = Fin (- 5) \<and>
   saleAmountOf ''-5'' \<noteq> Fin 0 \<and>
   parseFloat ''0.615'' = Fin (2769713770832855 / 4503599627370496) \<and>
   roundedTo2 (2769713770832855 / 4503599627370496) (61 / 100) \<and>
   saleAmountOf ''0.615'' = Fin (5584463537939415 / 9007199254740992) \<and>
   \<not> roundedTo2 (2769713770832855 / 4503599627370496) (5584463537939415 / 9007199254740992) \<and>
   fl (61 / 100) = Fin (5494391545392005 / 9007199254740992) \<and>
   saleAmountOf ''0.615'' \<noteq> fl (61 / 100)"
proof -
  have "roundedTo2 (2769713770832855 / 4503599627370496) (61 / 100)"
    by (simp add: roundedTo2_def)
  moreover have "fl (61 / 100) = Fin (5494391545392005 / 9007199254740992)"
    by (rule fl_0_61)
  moreover have
    "\<not> roundedTo2 (2769713770832855 / 4503599627370496) (5584463537939415 / 9007199254740992)"
    by (simp add: roundedTo2_def)
  ultimately show ?thesis
    by (simp add: parseFloat_minus_5 saleAmountOf_minus_5 parseFloat_0_615 saleAmountOf_0_615)
qed

text \<open>
  C3 (as amended). At submit time the commission amount is
  \<open>Math.round(a * (r / 100) * 100) / 100\<close> in binary64. For a normalized sale amount \<open>a\<close>
  of magnitude up to \<open>2 ^ 40\<close> and a rate \<open>r\<close> of magnitude up to 100 returned by
  \<open>calculateTotalCommission\<close>, the \<open>commissionAmount\<close> handed to \<open>onSubmit\<close> is the
  binary64 number nearest to \<open>k / 100\<close> for an integer \<open>k\<close> that differs from \<open>a * r\<close> by
  at most a half and the rounding error of the three operations before \<open>Math.round\<close>:
  \<open>a * r / 100\<close> rounded to 2 decimal places up to that error, so that at a tie, or
  within the error of one, either neighbour may come out. The rounding is part of the
  computation of the field, not of its display.
\<close>

theorem commissionAmount_rounded:
  assumes "saleAmountOf (FormData.saleAmount formData) = Fin a" and "\<bar>a\<bar> \<le> 2 ^ 40"
    and "calculateTotalCommission lib (Fin a) currentTotalVolume (FormData.saleType formData) = Fin r"
    and "\<bar>r\<bar> \<le> 100"
  shows "\<exists>k. Sale.commissionAmount
                (fst (handleSubmit lib today editingSale currentTotalVolume formData)) =
               fl (of_int k / 100) \<and>
             \<bar>of_int k - a * r\<bar> \<le> 1 / 2 + \<bar>a * r\<bar> / 2 ^ 51 + 1 / 2 ^ 1000"
proof -
  have "Sale.commissionAmount
          (fst (handleSubmit lib today editingSale currentTotalVolume formData)) =
        commissionAmountOf (Fin a) (Fin r)"
    using assms(1,3) by (simp add: handleSubmit_fields)
  then show ?thesis using commissionAmountOf_bound [OF assms(2,4)] by simp
qed

theorem commissionAmount_rounded_witness:
  "saleAmountOf (FormData.saleAmount exampleForm) = Fin (5001 / 2) \<and>
   \<bar>5001 / 2 :: rat\<bar> \<le> 2 ^ 40 \<and>
   calculateTotalCommission exampleLib (Fin (5001 / 2)) (Fin 0)
     (FormData.saleType exampleForm) = Fin (13 / 2) \<and>
   \<bar>13 / 2 :: rat\<bar> \<le> 100 \<and>
   (\<exists>k. Sale.commissionAmount
          (fst (handleSubmit exampleLib ''2024-02-01'' None (Fin 0) exampleForm)) =
         fl (of_int k / 100) \<and>
        \<bar>of_int k - 5001 / 2 * (13 / 2)\<bar> \<le>
          1 / 2 + \<bar>5001 / 2 * (13 / 2) :: rat\<bar> / 2 ^ 51 + 1 / 2 ^ 1000)"
proof -
  have a: "saleAmountOf (FormData.saleAmount exampleForm) = Fin (5001 / 2)"
    by (simp add: exampleForm_def saleAmountOf_2500_50)
  have r: "calculateTotalCommission exampleLib (Fin (5001 / 2)) (Fin 0)
     (FormData.saleType exampleForm) = Fin (13 / 2)"
    by (simp add: exampleLib_def)
  have ab: "\<bar>5001 / 2 :: rat\<bar> \<le> 2 ^ 40" and rb: "\<bar>13 / 2 :: rat\<bar> \<le> 100" by simp_all
  show ?thesis using a r ab rb commissionAmount_rounded [OF a ab r rb] by blast
qed

theorem commissionAmount_tie_counterexample:
  "saleAmountOf ''2500.25'' = Fin (10001 / 4) \<and>
   calculateTotalCommission (constRateLib 6) (Fin (10001 / 4)) (Fin 0) DEED = Fin 6 \<and>
   Sale.commissionAmount (fst (handleSubmit (constRateLib 6) ''2024-02-01'' None (Fin 0)
     (exampleForm\<lparr>FormData.saleAmount := ''2500.25''\<rparr>))) =
     Fin (659750957130711 / 4398046511104) \<and>
   roundedTo2 (10001 / 4 * 6 / 100) (15002 / 100) \<and>
   \<not> roundedTo2 (10001 / 4 * 6 / 100) (659750957130711 / 4398046511104) \<and>
   fl (15002 / 100) = Fin (5278359500766577 / 35184372088832) \<and>
   Sale.commissionAmount (fst (handleSubmit (constRateLib 6) ''2024-02-01'' None (Fin 0)
     (exampleForm\<lparr>FormData.saleAmount := ''2500.25''\<rparr>))) \<noteq> fl (15002 / 100)"
proof -
  have "roundedTo2 (10001 / 4 * 6 / 100) (15002 / 100)" by (simp add: roundedTo2_def)
  moreover have "fl (15002 / 100) = Fin (5278359500766577 / 35184372088832)"
    by (rule fl_150_02)
  moreover have "\<not> roundedTo2 (10001 / 4 * 6 / 100) (659750957130711 / 4398046511104)"
    by (simp add: roundedTo2_def)
  moreover have "Sale.commissionAmount (fst (handleSubmit (constRateLib 6) ''2024-02-01'' None
      (Fin 0) (exampleForm\<lparr>FormData.saleAmount := ''2500.25''\<rparr>))) =
     Fin (659750957130711 / 4398046511104)"
    by (simp add: handleSubmit_fields saleAmountOf_2500_25 constRateLib_def
        commissionAmountOf_2500_25_6)
  ultimately show ?thesis by (simp add: saleAmountOf_2500_25 constRateLib_def)
qed







text \<open>
  C9. Frame of \<open>handleFDIChange\<close>: the new form state is the old one with \<open>fdi\<close>,
  \<open>fdiGivenPoints\<close> and \<open>fdiCost\<close> replaced; the twelve other fields, among them
  \<open>saleAmount\<close>, \<open>commissionPercentage\<close>, \<open>commissionAmount\<close>, \<open>fdiPoints\<close>, \<open>saleType\<close>
  and \<open>numberOfTours\<close>, keep their values.
\<close>

theorem handleFDIChange_frame:
  "(\<exists>given cost. handleFDIChange lib formData txt =
      formData\<lparr>FormData.fdi := txt, FormData.fdiGivenPoints := given,
        FormData.fdiCost := cost\<rparr>) \<and>
   FormData.date (handleFDIChange lib formData txt) = FormData.date formData \<and>
   FormData.clientLastName (handleFDIChange lib formData txt) =
     FormData.clientLastName formData \<and>
   FormData.leadNumber (handleFDIChange lib formData txt) = FormData.leadNumber formData \<and>
   FormData.numberOfTours (handleFDIChange lib formData txt) =
     FormData.numberOfTours formData \<and>
   FormData.managerName (handleFDIChange lib formData txt) = FormData.managerName formData \<and>
   FormData.saleAmount (handleFDIChange lib formData txt) = FormData.saleAmount formData \<and>
   FormData.commissionPercentage (handleFDIChange lib formData txt) =
     FormData.commissionPercentage formData \<and>
   FormData.commissionAmount (handleFDIChange lib formData txt) =
     FormData.commissionAmount formData \<and>
   FormData.fdiPoints (handleFDIChange lib formData txt) = FormData.fdiPoints formData \<and>
   FormData.notes' (handleFDIChange lib formData txt) = FormData.notes' formData \<and>
   FormData.saleType (handleFDIChange lib formData txt) = FormData.saleType formData \<and>
   FormData.isCancelled (handleFDIChange lib formData txt) = FormData.isCancelled formData"
proof -
  have "handleFDIChange lib formData txt =
      formData\<lparr>FormData.fdi := txt, FormData.fdiGivenPoints := fdiGivenPointsOf txt,
        FormData.fdiCost :=
          calculateFDICost lib (fdiGivenPointsOf txt) (FormData.fdiPoints formData)\<rparr>"
    by (simp add: handleFDIChange_def Let_def)
  then have "\<exists>given cost. handleFDIChange lib formData txt =
      formData\<lparr>FormData.fdi := txt, FormData.fdiGivenPoints := given,
        FormData.fdiCost := cost\<rparr>"
    by blast
  moreover have "FormData.date (handleFDIChange lib formData txt) = FormData.date formData"
    and "FormData.clientLastName (handleFDIChange lib formData txt) =
      FormData.clientLastName formData"
    and "FormData.leadNumber (handleFDIChange lib formData txt) = FormData.leadNumber formData"
    and "FormData.numberOfTours (handleFDIChange lib formData txt) =
      FormData.numberOfTours formData"
    and "FormData.managerName (handleFDIChange lib formData txt) =
      FormData.managerName formData"
    and "FormData.saleAmount (handleFDIChange lib formData txt) = FormData.saleAmount formData"
    by (simp_all add: handleFDIChange_def Let_def)
  moreover have "FormData.commissionPercentage (handleFDIChange lib formData txt) =
      FormData.commissionPercentage formData"
    and "FormData.commissionAmount (handleFDIChange lib formData txt) =
      FormData.commissionAmount formData"
    and "FormData.fdiPoints (handleFDIChange lib formData txt) = FormData.fdiPoints formData"
    and "FormData.notes' (handleFDIChange lib formData txt) = FormData.notes' formData"
    and "FormData.saleType (handleFDIChange lib formData txt) = FormData.saleType formData"
    and "FormData.isCancelled (handleFDIChange lib formData txt) =
      FormData.isCancelled formData"
    by (simp_all add: handleFDIChange_def Let_def)
  ultimately show ?thesis by (simp only: simp_thms)
qed



section \<open>The calculator\<close>

lemma js_le_trans: "js_le a b \<Longrightarrow> js_le b c \<Longrightarrow> js_le a c"
  by (cases a; cases b; cases c) simp_all

lemma normalizeNonNeg_mono: "js_le v w \<Longrightarrow> js_le (normalizeNonNeg v) (normalizeNonNeg w)"
  by (cases v; cases w) (auto simp add: normalizeNonNeg_def)

lemma normalizeNonNeg_id: "js_le (Fin 0) v \<Longrightarrow> normalizeNonNeg v = v"
  by (cases v) (auto simp add: normalizeNonNeg_def)

lemma last_filter_rate_le:
  assumes "sorted (map snd xs)" and "\<And>x. P x \<Longrightarrow> Q x" and "filter P xs \<noteq> []"
  shows "snd (last (filter P xs)) \<le> (snd (last (filter Q xs)) :: rat)"
  using assms
proof (induction xs rule: rev_induct)
  case Nil
  then show ?case by simp
next
  case (snoc x xs)
  from snoc.prems(1) have sorted_xs: "sorted (map snd xs)"
    and below: "\<forall>y \<in> set xs. snd y \<le> snd x"
    by (auto simp add: sorted_append)
  show ?case
  proof (cases "Q x")
    case True
    have "last (filter P (xs @ [x])) \<in> set (filter P (xs @ [x]))"
      using snoc.prems(3) by (rule last_in_set)
    then have "last (filter P (xs @ [x])) \<in> set (xs @ [x])" by auto
    then have le: "snd (last (filter P (xs @ [x]))) \<le> snd x" using below by auto
    have "last (filter Q (xs @ [x])) = x" using True by simp
    then show ?thesis using le by (simp only:)
  next
    case False
    then have "\<not> P x" using snoc.prems(2) by blast
    with False snoc.prems(3) have "filter P xs \<noteq> []" by simp
    from snoc.IH [OF sorted_xs snoc.prems(2) this] show ?thesis
      using False \<open>\<not> P x\<close> by simp
  qed
qed

lemma first_rate_le_last_filter:
  assumes "sorted (map snd (x # xs))" and "filter Q (x # xs) \<noteq> []"
  shows "snd x \<le> (snd (last (filter Q (x # xs))) :: rat)"
proof -
  define y where "y = last (filter Q (x # xs))"
  have mem: "y \<in> set (filter Q (x # xs))"
    unfolding y_def using assms(2) by (rule last_in_set)
  have "y \<in> set (x # xs)" by (rule subsetD [OF filter_is_subset mem])
  then have "snd x \<le> snd y" using assms(1) by auto
  then show ?thesis by (simp only: y_def)
qed

lemma tierRate_mono:
  assumes "sorted (map snd tiers)" and "js_le v w"
  shows "tierRate tiers v \<le> tierRate tiers w"
proof -
  let ?P = "\<lambda>tier. js_le (Fin (fst tier)) v"
  let ?Q = "\<lambda>tier. js_le (Fin (fst tier)) w"
  have PQ: "\<And>x. ?P x \<Longrightarrow> ?Q x" using assms(2) by (blast intro: js_le_trans)
  show ?thesis
  proof (cases "filter ?P tiers = []")
    case False
    then obtain x where "x \<in> set tiers" and "?P x" by (auto simp add: filter_empty_conv)
    then have "x \<in> set tiers" and "?Q x" using PQ by blast+
    then have "filter ?Q tiers \<noteq> []" by (auto simp add: filter_empty_conv)
    with False last_filter_rate_le [OF assms(1) PQ False] show ?thesis
      by (simp add: tierRate_def)
  next
    case True
    show ?thesis
    proof (cases "filter ?Q tiers = []")
      case True
      with \<open>filter ?P tiers = []\<close> show ?thesis by (simp add: tierRate_def)
    next
      case False
      then obtain x xs where tiers: "tiers = x # xs" by (cases tiers) auto
      from first_rate_le_last_filter [of x xs ?Q] assms(1) False
      have "snd x \<le> snd (last (filter ?Q (x # xs)))" by (simp add: tiers)
      with True False show ?thesis by (simp add: tierRate_def tiers)
    qed
  qed
qed

lemma round_mono:
  "(x :: rat) \<le> y \<Longrightarrow>
     (of_int \<lfloor>x * 100 + 1 / 2\<rfloor> / 100 :: rat) \<le> of_int \<lfloor>y * 100 + 1 / 2\<rfloor> / 100"
  by (simp add: divide_right_mono floor_mono)

lemma round_percent_range:
  assumes "0 \<le> (x :: rat)" and "x \<le> 100"
  shows "0 \<le> (of_int \<lfloor>x * 100 + 1 / 2\<rfloor> / 100 :: rat)"
    and "(of_int \<lfloor>x * 100 + 1 / 2\<rfloor> / 100 :: rat) \<le> 100"
proof -
  have "0 \<le> \<lfloor>x * 100 + 1 / 2\<rfloor>" using assms(1) by simp
  then show "0 \<le> (of_int \<lfloor>x * 100 + 1 / 2\<rfloor> / 100 :: rat)" by simp
  have "x * 100 + 1 / 2 < 10001" using assms(2) by simp
  then have "\<lfloor>x * 100 + 1 / 2\<rfloor> < 10001" by (simp add: floor_less_iff)
  then have "\<lfloor>x * 100 + 1 / 2\<rfloor> \<le> 10000" by simp
  then have "(of_int \<lfloor>x * 100 + 1 / 2\<rfloor> :: rat) \<le> of_int 10000" by (simp only: of_int_le_iff)
  then show "(of_int \<lfloor>x * 100 + 1 / 2\<rfloor> / 100 :: rat) \<le> 100" by simp
qed

lemma totalCommissionRate_mono:
  assumes "sorted (map snd (deedTiers cfg))" and "sorted (map snd (trustTiers cfg))"
    and "js_le v w"
  shows "js_le (totalCommissionRate cfg a v t) (totalCommissionRate cfg a w t)"
proof -
  let ?tiers = "case t of DEED \<Rightarrow> deedTiers cfg | TRUST \<Rightarrow> trustTiers cfg"
  have "sorted (map snd ?tiers)" using assms(1,2) by (cases t) simp_all
  then have "tierRate ?tiers (normalizeNonNeg v) \<le> tierRate ?tiers (normalizeNonNeg w)"
    using normalizeNonNeg_mono [OF assms(3)] by (rule tierRate_mono)
  then have "max 0 (min 100 (tierRate ?tiers (normalizeNonNeg v))) \<le>
             max 0 (min 100 (tierRate ?tiers (normalizeNonNeg w)))"
    by linarith
  then show ?thesis
    by (simp only: totalCommissionRate_def Let_def js_le.simps round_mono)
qed

lemma totalCommissionRate_range:
  "js_le (Fin 0) (totalCommissionRate cfg a v t)"
  "js_le (totalCommissionRate cfg a v t) (Fin 100)"
proof -
  let ?c = "max 0 (min 100 (tierRate (case t of DEED \<Rightarrow> deedTiers cfg | TRUST \<Rightarrow> trustTiers cfg)
    (normalizeNonNeg v)))"
  have c: "0 \<le> ?c" "?c \<le> 100" by simp_all
  show "js_le (Fin 0) (totalCommissionRate cfg a v t)"
    using round_percent_range(1) [OF c]
    by (simp only: totalCommissionRate_def Let_def js_le.simps)
  show "js_le (totalCommissionRate cfg a v t) (Fin 100)"
    using round_percent_range(2) [OF c]
    by (simp only: totalCommissionRate_def Let_def js_le.simps)
qed

text \<open>
  C4. For either sale type and every sale amount, \<open>totalCommissionRate\<close> does not
  decrease when the prior volume grows, the rates of the tier tables being in
  non-decreasing order along the tables (tiers only increase or stay flat as volume
  grows); and whatever the inputs and the tables, the rate returned lies in [0, 100].
\<close>

theorem totalCommissionRate_monotone_bounded:
  "(sorted (map snd (deedTiers cfg)) \<and> sorted (map snd (trustTiers cfg)) \<and> js_le v w \<longrightarrow>
      js_le (totalCommissionRate cfg a v t) (totalCommissionRate cfg a w t)) \<and>
   js_le (Fin 0) (totalCommissionRate cfg a v t) \<and>
   js_le (totalCommissionRate cfg a v t) (Fin 100)"
  using totalCommissionRate_mono [of cfg v w a t] totalCommissionRate_range [of cfg a v t]
  by blast

theorem totalCommissionRate_monotone_bounded_witness:
  "sorted (map snd (deedTiers exampleConfig)) \<and> sorted (map snd (trustTiers exampleConfig)) \<and>
   js_le (Fin 50000) (Fin 120000) \<and>
   totalCommissionRate exampleConfig (Fin 2500) (Fin 50000) DEED = Fin 5 \<and>
   totalCommissionRate exampleConfig (Fin 2500) (Fin 120000) DEED = Fin 6 \<and>
   js_le (totalCommissionRate exampleConfig (Fin 2500) (Fin 50000) DEED)
     (totalCommissionRate exampleConfig (Fin 2500) (Fin 120000) DEED)"
proof -
  have s: "sorted (map snd (deedTiers exampleConfig)) \<and>
      sorted (map snd (trustTiers exampleConfig)) \<and> js_le (Fin 50000) (Fin 120000)"
    by (simp add: exampleConfig_def)
  have v: "totalCommissionRate exampleConfig (Fin 2500) (Fin 50000) DEED = Fin 5"
    by (simp add: totalCommissionRate_def tierRate_def normalizeNonNeg_def exampleConfig_def
        floor_eq_iff)
  have w: "totalCommissionRate exampleConfig (Fin 2500) (Fin 120000) DEED = Fin 6"
    by (simp add: totalCommissionRate_def tierRate_def normalizeNonNeg_def exampleConfig_def
        floor_eq_iff)
  show ?thesis
    using s v w totalCommissionRate_monotone_bounded
      [of exampleConfig "Fin 50000" "Fin 120000" "Fin 2500" DEED]
    by blast
qed

lemma js_lt_imp_le: "js_lt a b \<Longrightarrow> js_le a b"
  by (cases a; cases b) simp_all

lemma dailyProductivityMetric_positive:
  assumes "js_lt (Fin 0) t"
  shows "dailyProductivityMetric x t = exact_div (normalizeNonNeg x) t"
proof -
  have "normalizeNonNeg t = t" using assms by (simp add: normalizeNonNeg_id js_lt_imp_le)
  then show ?thesis using assms by (simp add: dailyProductivityMetric_def)
qed

lemma dailyProductivityMetric_zero: "dailyProductivityMetric x (Fin 0) = Fin 0"
  by (simp add: dailyProductivityMetric_def normalizeNonNeg_def)

text \<open>
  C5. When the tour count \<open>t\<close> is positive the productivity metric is the normalized
  sale amount over \<open>t\<close>, which for a sale amount \<open>x\<close> (a non-negative number) is
  \<open>x / t\<close>; when \<open>t\<close> is 0 the metric is the number 0, not an infinity and not \<open>NaN\<close>,
  whatever \<open>x\<close>. The function is total: it has a value at every input.
\<close>

theorem dailyProductivityMetric_defined:
  "(js_lt (Fin 0) t \<longrightarrow> dailyProductivityMetric x t = exact_div (normalizeNonNeg x) t) \<and>
   (js_lt (Fin 0) t \<and> js_le (Fin 0) x \<longrightarrow> dailyProductivityMetric x t = exact_div x t) \<and>
   dailyProductivityMetric x (Fin 0) = Fin 0"
  by (simp add: dailyProductivityMetric_positive dailyProductivityMetric_zero normalizeNonNeg_id)

theorem dailyProductivityMetric_defined_witness:
  "js_lt (Fin 0) (Fin 4) \<and> js_le (Fin 0) (Fin 1000) \<and>
   dailyProductivityMetric (Fin 1000) (Fin 4) = Fin 250 \<and>
   dailyProductivityMetric (Fin 5000) (Fin 0) = Fin 0"
proof -
  have h: "js_lt (Fin 0) (Fin 4) \<and> js_le (Fin 0) (Fin 1000)" by simp
  have "dailyProductivityMetric (Fin 1000) (Fin 4) = exact_div (Fin 1000) (Fin 4)"
    using h dailyProductivityMetric_defined [of "Fin 4" "Fin 1000"] by blast
  moreover have "dailyProductivityMetric (Fin 5000) (Fin 0) = Fin 0"
    using dailyProductivityMetric_defined [of "Fin 0" "Fin 5000"] by blast
  ultimately show ?thesis by simp
qed

lemma fdiDiscountCost_within: "js_le p avail \<Longrightarrow> fdiDiscountCost cfg p avail = Fin 0"
  using normalizeNonNeg_mono [of p avail] by (simp add: fdiDiscountCost_def Let_def)

lemma fdiDiscountCost_none: "fdiDiscountCost cfg (Fin 0) avail = Fin 0"
  by (simp add: fdiDiscountCost_def normalizeNonNeg_def)

lemma fdiDiscountCost_excess:
  assumes "0 < fdiExcessRate cfg"
  shows "js_lt (Fin a) (Fin (max a 0 + 1 / fdiExcessRate cfg)) \<and>
         fdiDiscountCost cfg (Fin (max a 0 + 1 / fdiExcessRate cfg)) (Fin a) = Fin 1"
proof -
  let ?r = "fdiExcessRate cfg"
  let ?q = "max a 0 + 1 / ?r"
  have pos: "0 < 1 / ?r" using assms by simp
  have m: "0 \<le> max a 0" by simp
  have qpos: "0 < ?q" using pos m by linarith
  have q: "normalizeNonNeg (Fin ?q) = Fin ?q" using qpos by (simp add: normalizeNonNeg_def)
  have a: "normalizeNonNeg (Fin a) = Fin (max a 0)" by (simp add: normalizeNonNeg_def max_def)
  have ne: "?q \<noteq> 0" using qpos by simp
  have gt: "\<not> ?q \<le> max a 0" using pos by simp
  have "?r * (?q - max a 0) * 100 = 100" using assms by simp
  then have "\<lfloor>?r * (?q - max a 0) * 100 + 1 / 2\<rfloor> = \<lfloor>100 + 1 / 2 :: rat\<rfloor>" by (simp only:)
  also have "\<dots> = 100" by (simp add: floor_eq_iff)
  finally have fl: "\<lfloor>?r * (?q - max a 0) * 100 + 1 / 2\<rfloor> = 100" .
  have "fdiDiscountCost cfg (Fin ?q) (Fin a) =
        Fin (of_int \<lfloor>?r * (?q - max a 0) * 100 + 1 / 2\<rfloor> / 100)"
    using ne gt by (simp only: fdiDiscountCost_def Let_def q a) simp
  then have "fdiDiscountCost cfg (Fin ?q) (Fin a) = Fin 1" by (simp only: fl) simp
  moreover have "a \<le> max a 0" by simp
  then have "a < ?q" using pos by linarith
  ultimately show ?thesis by simp
qed

text \<open>
  C6. Redeeming no more points than are available costs nothing: for \<open>p \<le> avail\<close> the
  discount cost is 0, and it is 0 for \<open>p = 0\<close> whatever \<open>avail\<close>. The charge for an
  excess is reachable: with a positive rate per excess point, for every finite number
  of points available some larger number of points redeemed has a cost above 0.
\<close>

theorem fdiDiscountCost_free_within_allotment:
  "(js_le p avail \<longrightarrow> fdiDiscountCost cfg p avail = Fin 0) \<and>
   fdiDiscountCost cfg (Fin 0) avail = Fin 0 \<and>
   (0 < fdiExcessRate cfg \<longrightarrow>
      (\<exists>q. js_lt (Fin a) (Fin q) \<and> js_lt (Fin 0) (fdiDiscountCost cfg (Fin q) (Fin a))))"
proof -
  have "\<exists>q. js_lt (Fin a) (Fin q) \<and> js_lt (Fin 0) (fdiDiscountCost cfg (Fin q) (Fin a))"
    if "0 < fdiExcessRate cfg"
  proof (intro exI conjI)
    show "js_lt (Fin a) (Fin (max a 0 + 1 / fdiExcessRate cfg))"
      using fdiDiscountCost_excess [OF that] by blast
    show "js_lt (Fin 0) (fdiDiscountCost cfg (Fin (max a 0 + 1 / fdiExcessRate cfg)) (Fin a))"
      using fdiDiscountCost_excess [OF that, of a] by simp
  qed
  then show ?thesis by (simp add: fdiDiscountCost_within fdiDiscountCost_none)
qed

theorem fdiDiscountCost_free_within_allotment_witness:
  "js_le (Fin 3) (Fin 10) \<and> fdiDiscountCost exampleConfig (Fin 3) (Fin 10) = Fin 0 \<and>
   0 < fdiExcessRate exampleConfig \<and>
   (\<exists>q. js_lt (Fin 10) (Fin q) \<and> js_lt (Fin 0) (fdiDiscountCost exampleConfig (Fin q) (Fin 10)))"
proof -
  have h: "js_le (Fin 3) (Fin 10)" "0 < fdiExcessRate exampleConfig"
    by (simp_all add: exampleConfig_def)
  show ?thesis
    using h fdiDiscountCost_free_within_allotment [of "Fin 3" "Fin 10" exampleConfig 10]
    by blast
qed

end
